theory Spec2Isabelle
  imports Main
begin

section \<open>Values and errors\<close>

text \<open>
  The calendar events and the transport replies are JSON documents read with
  \<^verbatim>\<open>json.load\<close> / \<^verbatim>\<open>response.json()\<close>.  Scalar JSON values are modelled by
  \<open>jval\<close>; JSON numbers with a fraction or an exponent, arrays and nested objects as
  field values are outside the model.  A Python \<^verbatim>\<open>dict\<close> with string keys is a map.
  Python strings are lists of code points; the model keeps the code points below 256,
  one \<open>char\<close> each.  The three Chinese message literals of the scheduler are only
  stored and compared, and are kept as their UTF-8 bytes.
\<close>

datatype jval = JNull | JBool bool | JInt int | JStr string

type_synonym pydict = "string \<rightharpoonup> jval"

text \<open>The exceptions the modelled code can raise; each is a subclass of
  Python's \<^verbatim>\<open>Exception\<close>.\<close>

datatype py_error = ValueError | TypeError | OverflowError | OSError

fun is_Exception :: "py_error \<Rightarrow> bool" where
  "is_Exception ValueError = True"
| "is_Exception TypeError = True"
| "is_Exception OverflowError = True"
| "is_Exception OSError = True"

section \<open>Python library functions used by the time extraction\<close>

subsection \<open>\<^verbatim>\<open>int(x)\<close>\<close>

definition py_isspace :: "char \<Rightarrow> bool" where
  "py_isspace c \<longleftrightarrow> (of_char c :: nat) \<in> {9, 10, 11, 12, 13, 28, 29, 30, 31, 32, 133, 160}"

definition py_strip :: "string \<Rightarrow> string" where
  "py_strip s = rev (dropWhile py_isspace (rev (dropWhile py_isspace s)))"

text \<open>\<^verbatim>\<open>int\<close> skips fewer characters than \<^verbatim>\<open>str.strip\<close>: the four separators
  U+001C to U+001F are not blanks for it, and a string that starts or ends with one is
  no integer.\<close>

definition int_isspace :: "char \<Rightarrow> bool" where
  "int_isspace c \<longleftrightarrow> (of_char c :: nat) \<in> {9, 10, 11, 12, 13, 32, 133, 160}"

definition int_strip :: "string \<Rightarrow> string" where
  "int_strip s = rev (dropWhile int_isspace (rev (dropWhile int_isspace s)))"

definition is_digit :: "char \<Rightarrow> bool" where
  "is_digit c \<longleftrightarrow> 48 \<le> (of_char c :: nat) \<and> (of_char c :: nat) \<le> 57"

definition digit_val :: "char \<Rightarrow> nat" where
  "digit_val c = of_char c - 48"

text \<open>Decimal digits, with single underscores allowed between two digits.  The flag
  says that the previous character was a digit.  Surrounding white space is stripped and
  one sign is allowed.  The interpreter's limit on the number of digits of a converted
  string is not modelled.\<close>

fun int_digits :: "bool \<Rightarrow> nat \<Rightarrow> string \<Rightarrow> nat option" where
  "int_digits prev acc [] = (if prev then Some acc else None)"
| "int_digits prev acc (c # cs) =
     (if is_digit c then int_digits True (10 * acc + digit_val c) cs
      else if c = CHR ''_'' \<and> prev then int_digits False acc cs
      else None)"

definition py_int_str :: "string \<Rightarrow> py_error + int" where
  "py_int_str s =
     (case int_strip s of
        [] \<Rightarrow> Inl ValueError
      | c # cs \<Rightarrow>
          if c = CHR ''-'' then
            (case int_digits False 0 cs of None \<Rightarrow> Inl ValueError | Some n \<Rightarrow> Inr (- int n))
          else if c = CHR ''+'' then
            (case int_digits False 0 cs of None \<Rightarrow> Inl ValueError | Some n \<Rightarrow> Inr (int n))
          else
            (case int_digits False 0 (c # cs) of None \<Rightarrow> Inl ValueError | Some n \<Rightarrow> Inr (int n)))"

fun py_int :: "jval \<Rightarrow> py_error + int" where
  "py_int (JStr s) = py_int_str s"
| "py_int (JInt n) = Inr n"
| "py_int (JBool b) = Inr (if b then 1 else 0)"
| "py_int JNull = Inl TypeError"

subsection \<open>\<^verbatim>\<open>datetime.strptime(s, "%Y-%m-%d")\<close>\<close>

text \<open>
  \<^verbatim>\<open>strptime\<close> compiles the format into the regular expression
  \<^verbatim>\<open>(?P<Y>\d\d\d\d)-(?P<m>1[0-2]|0[1-9]|[1-9])-(?P<d>3[0-1]|[1-2]\d|0[1-9]|[1-9]| [1-9])\<close>,
  matches it at the start of the string and raises \<^verbatim>\<open>ValueError\<close> when there is no
  match or when input remains after the match.  Each group is modelled by the list of
  its alternatives that match, in the order the expression tries them, each with the
  input left after it.
\<close>

definition in_range :: "char \<Rightarrow> nat \<Rightarrow> nat \<Rightarrow> bool" where
  "in_range c lo hi \<longleftrightarrow> lo \<le> (of_char c :: nat) \<and> (of_char c :: nat) \<le> hi"

definition year_alts :: "string \<Rightarrow> (nat \<times> string) list" where
  "year_alts s =
     (case s of
        a # b # c # d # r \<Rightarrow>
          if is_digit a \<and> is_digit b \<and> is_digit c \<and> is_digit d
          then [(1000 * digit_val a + 100 * digit_val b + 10 * digit_val c + digit_val d, r)]
          else []
      | _ \<Rightarrow> [])"

definition two_chars :: "nat \<Rightarrow> nat \<Rightarrow> nat \<Rightarrow> nat \<Rightarrow> string \<Rightarrow> (nat \<times> string) list" where
  "two_chars lo1 hi1 lo2 hi2 s =
     (case s of
        a # b # r \<Rightarrow>
          if in_range a lo1 hi1 \<and> in_range b lo2 hi2
          then [(if is_digit a then 10 * digit_val a + digit_val b else digit_val b, r)]
          else []
      | _ \<Rightarrow> [])"

definition one_char :: "nat \<Rightarrow> nat \<Rightarrow> string \<Rightarrow> (nat \<times> string) list" where
  "one_char lo hi s =
     (case s of a # r \<Rightarrow> if in_range a lo hi then [(digit_val a, r)] else [] | _ \<Rightarrow> [])"

definition month_alts :: "string \<Rightarrow> (nat \<times> string) list" where
  "month_alts s = two_chars 49 49 48 50 s @ two_chars 48 48 49 57 s @ one_char 49 57 s"

definition day_alts :: "string \<Rightarrow> (nat \<times> string) list" where
  "day_alts s =
     two_chars 51 51 48 49 s @ two_chars 49 50 48 57 s @ two_chars 48 48 49 57 s
       @ one_char 49 57 s @ two_chars 32 32 49 57 s"

definition dash :: "string \<Rightarrow> string list" where
  "dash s = (case s of c # r \<Rightarrow> if c = CHR ''-'' then [r] else [] | _ \<Rightarrow> [])"

definition ymd_matches :: "string \<Rightarrow> ((nat \<times> nat \<times> nat) \<times> string) list" where
  "ymd_matches s =
     concat (map (\<lambda>(y, r1). concat (map (\<lambda>r2. concat (map (\<lambda>(m, r3). concat (map (\<lambda>r4.
        map (\<lambda>(d, r5). ((y, m, d), r5)) (day_alts r4)) (dash r3))) (month_alts r2))) (dash r1)))
        (year_alts s))"

definition is_leap :: "nat \<Rightarrow> bool" where
  "is_leap y \<longleftrightarrow> y mod 4 = 0 \<and> (y mod 100 \<noteq> 0 \<or> y mod 400 = 0)"

definition days_in_month :: "nat \<Rightarrow> nat \<Rightarrow> nat" where
  "days_in_month y m =
     (if m = 2 then (if is_leap y then 29 else 28)
      else if m = 4 \<or> m = 6 \<or> m = 9 \<or> m = 11 then 30 else 31)"

text \<open>A naive \<^verbatim>\<open>datetime\<close> at midnight: year, month, day.\<close>

type_synonym naive_date = "nat \<times> nat \<times> nat"

definition strptime_ymd :: "jval \<Rightarrow> py_error + naive_date" where
  "strptime_ymd v =
     (case v of
        JStr s \<Rightarrow>
          (case ymd_matches s of
             [] \<Rightarrow> Inl ValueError
           | ((y, m, d), rest) # _ \<Rightarrow>
               if rest \<noteq> [] then Inl ValueError
               else if y < 1 \<or> d > days_in_month y m then Inl ValueError
               else Inr (y, m, d))
      | _ \<Rightarrow> Inl TypeError)"

subsection \<open>\<^verbatim>\<open>datetime.timestamp()\<close> of a naive datetime\<close>

text \<open>
  The proleptic Gregorian ordinal of a date (day 1 is 0001-01-01), as the
  \<^verbatim>\<open>datetime\<close> module computes it, and the seconds between 1970-01-01T00:00:00 and
  midnight of the date, both read on the same clock.
\<close>

definition days_before_year :: "nat \<Rightarrow> nat" where
  "days_before_year y = (y - 1) * 365 + (y - 1) div 4 - (y - 1) div 100 + (y - 1) div 400"

definition days_before_month :: "nat \<Rightarrow> nat \<Rightarrow> nat" where
  "days_before_month y m =
     [0, 31, 59, 90, 120, 151, 181, 212, 243, 273, 304, 334] ! (m - 1)
       + (if m > 2 \<and> is_leap y then 1 else 0)"

definition ymd2ord :: "naive_date \<Rightarrow> nat" where
  "ymd2ord dt = (case dt of (y, m, d) \<Rightarrow> days_before_year y + days_before_month y m + d)"

definition wall_seconds :: "naive_date \<Rightarrow> int" where
  "wall_seconds dt = (int (ymd2ord dt) - 719163) * 86400"

text \<open>
  \<^verbatim>\<open>timestamp()\<close> of a naive datetime reads it as local time of the process and asks the
  platform for the instant.  The platform is a parameter: \<open>mktime_local\<close> takes the wall
  clock seconds and returns the seconds since the epoch, or the exception the platform
  raises for a time it cannot represent.  The code multiplies the float result by 1000
  and truncates; at midnight of a date of the years 1 to 9999 the product is a whole
  number below \<open>2 ^ 53\<close>, so the integer product is the same value.  \<open>md5_json\<close> stands for
  \<^verbatim>\<open>hashlib.md5(json.dumps(key_fields, sort_keys=True).encode()).hexdigest()\<close>.
\<close>

record key_fields =
  kf_summary :: string
  kf_start_time :: pydict
  kf_end_time :: pydict
  kf_status :: string
  kf_description :: string

record platform =
  mktime_local :: "int \<Rightarrow> py_error + int"
  md5_json :: "key_fields \<Rightarrow> string"

text \<open>
  The conversion in a zone with a fixed offset from UTC, in seconds east.  While it
  looks for the instant, \<^verbatim>\<open>timestamp()\<close> also converts the instant one day earlier,
  and raises \<^verbatim>\<open>ValueError\<close> when that day is before 0001-01-01: so it does at
  midnight of 0001-01-01 (wall clock second \<open>- 62135596800\<close>).
\<close>

definition fixed_zone_mktime :: "int \<Rightarrow> int \<Rightarrow> py_error + int" where
  "fixed_zone_mktime offset s =
     (if s - 86400 < - 62135596800 then Inl ValueError else Inr (s - offset))"

text \<open>A platform whose local zone is UTC, and one whose local zone is eight hours
  east of UTC all year.\<close>

definition utc_platform :: "(key_fields \<Rightarrow> string) \<Rightarrow> platform" where
  "utc_platform h = \<lparr>mktime_local = fixed_zone_mktime 0, md5_json = h\<rparr>"

definition utc8_platform :: "(key_fields \<Rightarrow> string) \<Rightarrow> platform" where
  "utc8_platform h = \<lparr>mktime_local = fixed_zone_mktime 28800, md5_json = h\<rparr>"

section \<open>Time extraction\<close>

text \<open>The body of the \<^verbatim>\<open>try\<close> block, shared by the two functions: the
  \<^verbatim>\<open>timestamp\<close> key wins over the \<^verbatim>\<open>date\<close> key.\<close>

definition date_to_ms :: "platform \<Rightarrow> jval \<Rightarrow> py_error + int option" where
  "date_to_ms pf date_str =
     (case strptime_ymd date_str of
        Inl e \<Rightarrow> Inl e
      | Inr dt \<Rightarrow>
          (case mktime_local pf (wall_seconds dt) of
             Inl e \<Rightarrow> Inl e
           | Inr t \<Rightarrow> Inr (Some (t * 1000))))"

definition extract_timestamp_try :: "platform \<Rightarrow> pydict \<Rightarrow> py_error + int option" where
  "extract_timestamp_try pf time_data =
     (case time_data ''timestamp'' of
        Some v \<Rightarrow> (case py_int v of Inl e \<Rightarrow> Inl e | Inr n \<Rightarrow> Inr (Some (n * 1000)))
      | None \<Rightarrow>
          (case time_data ''date'' of
             Some date_str \<Rightarrow> date_to_ms pf date_str
           | None \<Rightarrow> Inr None))"

text \<open>\<^verbatim>\<open>RecordTracker._extract_timestamp\<close>: a bare \<^verbatim>\<open>except:\<close> returns
  \<^verbatim>\<open>None\<close> on every exception.\<close>

definition extract_timestamp :: "platform \<Rightarrow> pydict \<Rightarrow> py_error + int option" where
  "extract_timestamp pf time_data =
     (case extract_timestamp_try pf time_data of Inl e \<Rightarrow> Inr None | Inr r \<Rightarrow> Inr r)"

text \<open>\<^verbatim>\<open>DirectCalendarUploader.parse_timestamp_to_ms\<close>: the \<^verbatim>\<open>timezone\<close> entry is
  read (default \<^verbatim>\<open>"UTC"\<close>) and not used; \<^verbatim>\<open>except Exception\<close> returns
  \<^verbatim>\<open>None\<close>.\<close>

definition parse_timestamp_to_ms_try :: "platform \<Rightarrow> pydict \<Rightarrow> py_error + int option" where
  "parse_timestamp_to_ms_try pf time_data =
     (case time_data ''timestamp'' of
        Some v \<Rightarrow> (case py_int v of Inl e \<Rightarrow> Inl e | Inr timestamp \<Rightarrow> Inr (Some (timestamp * 1000)))
      | None \<Rightarrow>
          (case time_data ''date'' of
             Some date_str \<Rightarrow>
               (let timezone = (case time_data ''timezone'' of None \<Rightarrow> JStr ''UTC'' | Some z \<Rightarrow> z)
                in date_to_ms pf date_str)
           | None \<Rightarrow> Inr None))"

definition parse_timestamp_to_ms :: "platform \<Rightarrow> pydict \<Rightarrow> py_error + int option" where
  "parse_timestamp_to_ms pf time_data =
     (case parse_timestamp_to_ms_try pf time_data of
        Inl e \<Rightarrow> if is_Exception e then Inr None else Inl e
      | Inr r \<Rightarrow> Inr r)"

section \<open>Record store\<close>

text \<open>
  The SQLite database is modelled as an in-memory table: a list of rows kept in rowid
  order, and the list of log rows.  The surrogate key \<^verbatim>\<open>id\<close> is never read by the
  code and is left out.  \<^verbatim>\<open>CURRENT_TIMESTAMP\<close> is the parameter \<open>now\<close> of each
  operation, in seconds.  The column \<^verbatim>\<open>upload_status\<close> only ever receives the three
  literals \<^verbatim>\<open>'pending'\<close>, \<^verbatim>\<open>'uploaded'\<close>, \<^verbatim>\<open>'failed'\<close>.  Two failures of a
  statement are modelled, each caught by the handler of the method that runs it: an
  integer outside the signed 64 bits of an SQLite \<^verbatim>\<open>INTEGER\<close> cannot be bound
  (\<^verbatim>\<open>OverflowError\<close>), and a \<^verbatim>\<open>NULL\<close> cannot be inserted into a \<^verbatim>\<open>NOT NULL\<close>
  column.  Input and output errors of the database file are not modelled.
\<close>

datatype upload_state = Pending | Uploaded | Failed

type_synonym timestamp = nat

record calendar_record =
  event_id :: string
  person_name :: string
  summary :: "string option"
  start_time :: "int option"
  end_time :: "int option"
  calendar_file :: "string option"
  record_hash :: "string option"
  upload_status :: upload_state
  upload_time :: "timestamp option"
  upload_result :: "string option"
  created_time :: timestamp
  updated_time :: timestamp

record upload_log =
  log_batch_id :: string
  log_event_id :: "string option"
  log_upload_status :: "string option"
  log_upload_result :: "string option"
  log_upload_time :: timestamp
  log_error_message :: "string option"

record db =
  calendar_records :: "calendar_record list"
  upload_logs :: "upload_log list"

text \<open>The raw event, with the fields of the ingestion interface; \<open>None\<close> is a key
  that the dictionary does not have.\<close>

record event_data =
  ev_event_id :: "string option"
  ev_summary :: "string option"
  ev_status :: "string option"
  ev_start_time :: "pydict option"
  ev_end_time :: "pydict option"
  ev_description :: "string option"

definition get_str :: "string option \<Rightarrow> string \<Rightarrow> string" where
  "get_str v dflt = (case v of None \<Rightarrow> dflt | Some s \<Rightarrow> s)"

definition get_dict :: "pydict option \<Rightarrow> pydict" where
  "get_dict v = (case v of None \<Rightarrow> Map.empty | Some d \<Rightarrow> d)"

text \<open>\<^verbatim>\<open>RecordTracker._generate_record_hash\<close>\<close>

definition generate_record_hash :: "platform \<Rightarrow> event_data \<Rightarrow> string" where
  "generate_record_hash pf ev =
     md5_json pf
       \<lparr>kf_summary = get_str (ev_summary ev) '''',
        kf_start_time = get_dict (ev_start_time ev),
        kf_end_time = get_dict (ev_end_time ev),
        kf_status = get_str (ev_status ev) '''',
        kf_description = get_str (ev_description ev) ''''\<rparr>"

text \<open>\<^verbatim>\<open>SELECT ... WHERE event_id = ?\<close> followed by \<^verbatim>\<open>fetchone()\<close>.\<close>

definition select_by_event_id :: "db \<Rightarrow> string \<Rightarrow> calendar_record option" where
  "select_by_event_id d eid = find (\<lambda>r. event_id r = eid) (calendar_records d)"

text \<open>\<^verbatim>\<open>UPDATE calendar_records SET ... WHERE\<close> a condition holds; and the
  \<^verbatim>\<open>rowcount\<close> of the statement.\<close>

definition update_where ::
  "(calendar_record \<Rightarrow> bool) \<Rightarrow> (calendar_record \<Rightarrow> calendar_record) \<Rightarrow> db \<Rightarrow> db" where
  "update_where cond f d =
     d\<lparr>calendar_records := map (\<lambda>r. if cond r then f r else r) (calendar_records d)\<rparr>"

definition rowcount_where :: "(calendar_record \<Rightarrow> bool) \<Rightarrow> db \<Rightarrow> nat" where
  "rowcount_where cond d = length (filter cond (calendar_records d))"

text \<open>A start or end time that the \<^verbatim>\<open>UPDATE\<close> or \<^verbatim>\<open>INSERT\<close> can bind: \<^verbatim>\<open>None\<close>
  or an integer of 64 bits.\<close>

definition sqlite_int_ok :: "int option \<Rightarrow> bool" where
  "sqlite_int_ok v =
     (case v of None \<Rightarrow> True | Some n \<Rightarrow> - 9223372036854775808 \<le> n \<and> n \<le> 9223372036854775807)"

text \<open>\<^verbatim>\<open>RecordTracker.add_or_update_record\<close>.  An exception anywhere in the body is
  caught by the outer handler, which returns \<^verbatim>\<open>False\<close> with nothing committed: so
  it is when the \<^verbatim>\<open>UPDATE\<close> or the \<^verbatim>\<open>INSERT\<close> cannot bind a time.  The
  \<^verbatim>\<open>SELECT\<close> binds only the \<^verbatim>\<open>event_id\<close>.\<close>

definition add_or_update_record ::
  "platform \<Rightarrow> timestamp \<Rightarrow> db \<Rightarrow> event_data \<Rightarrow> string \<Rightarrow> string \<Rightarrow> bool \<times> db" where
  "add_or_update_record pf now d ev person calfile =
     (case ev_event_id ev of
        None \<Rightarrow> (False, d)
      | Some eid \<Rightarrow>
          if eid = [] then (False, d)
          else
            (case extract_timestamp pf (get_dict (ev_start_time ev)) of
               Inl e \<Rightarrow> (False, d)
             | Inr start \<Rightarrow>
                 (case extract_timestamp pf (get_dict (ev_end_time ev)) of
                    Inl e \<Rightarrow> (False, d)
                  | Inr endt \<Rightarrow>
                      (let h = generate_record_hash pf ev in
                       case select_by_event_id d eid of
                         Some existing_record \<Rightarrow>
                           if record_hash existing_record \<noteq> Some h then
                             if \<not> (sqlite_int_ok start \<and> sqlite_int_ok endt) then (False, d)
                             else
                             (True,
                              update_where (\<lambda>r. event_id r = eid)
                                (\<lambda>r. r\<lparr>summary := Some (get_str (ev_summary ev) ''''),
                                        start_time := start, end_time := endt,
                                        calendar_file := Some calfile, record_hash := Some h,
                                        upload_status := Pending, upload_time := None,
                                        upload_result := None, updated_time := now\<rparr>) d)
                           else (False, d)
                       | None \<Rightarrow>
                           if \<not> (sqlite_int_ok start \<and> sqlite_int_ok endt) then (False, d)
                           else
                           (True,
                            d\<lparr>calendar_records := calendar_records d @
                               [\<lparr>event_id = eid, person_name = person,
                                 summary = Some (get_str (ev_summary ev) ''''),
                                 start_time = start, end_time = endt,
                                 calendar_file = Some calfile, record_hash = Some h,
                                 upload_status = Pending, upload_time = None,
                                 upload_result = None, created_time = now,
                                 updated_time = now\<rparr>]\<rparr>)))))"

text \<open>Both resolved times of an event can be bound.\<close>

definition bindable_times :: "platform \<Rightarrow> event_data \<Rightarrow> bool" where
  "bindable_times pf ev \<longleftrightarrow>
     (case extract_timestamp pf (get_dict (ev_start_time ev)) of
        Inl e \<Rightarrow> False | Inr start \<Rightarrow> sqlite_int_ok start)
     \<and> (case extract_timestamp pf (get_dict (ev_end_time ev)) of
        Inl e \<Rightarrow> False | Inr endt \<Rightarrow> sqlite_int_ok endt)"


text \<open>\<^verbatim>\<open>RecordTracker.get_pending_records\<close>.  An absent or empty \<^verbatim>\<open>person_name\<close>
  adds no condition; an absent or zero \<^verbatim>\<open>limit\<close> adds no \<^verbatim>\<open>LIMIT\<close>, and SQLite
  reads a negative \<^verbatim>\<open>LIMIT\<close> as no bound.  The limit is taken within 64 bits (no
  caller passes one).  \<^verbatim>\<open>ORDER BY created_time ASC\<close> is modelled
  by a stable sort: rows with equal \<^verbatim>\<open>created_time\<close> stay in rowid order.\<close>

definition py_truthy_str :: "string option \<Rightarrow> bool" where
  "py_truthy_str v = (case v of None \<Rightarrow> False | Some s \<Rightarrow> s \<noteq> [])"

definition sql_limit :: "int option \<Rightarrow> 'a list \<Rightarrow> 'a list" where
  "sql_limit lim xs =
     (case lim of
        None \<Rightarrow> xs
      | Some l \<Rightarrow> if l = 0 then xs else if l < 0 then xs else take (nat l) xs)"

definition pending_cond :: "string option \<Rightarrow> calendar_record \<Rightarrow> bool" where
  "pending_cond person r =
     (if py_truthy_str person
      then upload_status r = Pending \<and> Some (person_name r) = person
      else upload_status r = Pending)"

definition get_pending_records :: "db \<Rightarrow> string option \<Rightarrow> int option \<Rightarrow> calendar_record list" where
  "get_pending_records d person lim =
     sql_limit lim (sort_key created_time (filter (pending_cond person) (calendar_records d)))"

text \<open>\<^verbatim>\<open>RecordTracker.mark_as_uploaded\<close> (the default of \<^verbatim>\<open>upload_result\<close> is
  \<^verbatim>\<open>"success"\<close>) and \<^verbatim>\<open>RecordTracker.mark_as_failed\<close>.\<close>

definition mark_as_uploaded :: "timestamp \<Rightarrow> db \<Rightarrow> string \<Rightarrow> string \<Rightarrow> bool \<times> db" where
  "mark_as_uploaded now d eid upload_res =
     (let d' = update_where (\<lambda>r. event_id r = eid)
                 (\<lambda>r. r\<lparr>upload_status := Uploaded, upload_time := Some now,
                         upload_result := Some upload_res, updated_time := now\<rparr>) d
      in if rowcount_where (\<lambda>r. event_id r = eid) d > 0 then (True, d') else (False, d))"

definition mark_as_failed :: "timestamp \<Rightarrow> db \<Rightarrow> string \<Rightarrow> string \<Rightarrow> bool \<times> db" where
  "mark_as_failed now d eid error_message =
     (let d' = update_where (\<lambda>r. event_id r = eid)
                 (\<lambda>r. r\<lparr>upload_status := Failed, upload_time := Some now,
                         upload_result := Some (''FAILED: '' @ error_message),
                         updated_time := now\<rparr>) d
      in (rowcount_where (\<lambda>r. event_id r = eid) d > 0, d'))"

text \<open>\<^verbatim>\<open>RecordTracker.log_upload_batch\<close>: one row per result, in order, committed
  after the loop.  The columns \<^verbatim>\<open>event_id\<close> and \<^verbatim>\<open>upload_status\<close> of the log table
  are \<^verbatim>\<open>NOT NULL\<close>: a result without one of them makes its \<^verbatim>\<open>INSERT\<close> raise, the
  handler returns \<^verbatim>\<open>False\<close> and nothing is committed.\<close>

record upload_result_entry =
  res_event_id :: "string option"
  res_status :: "string option"
  res_result :: "string option"
  res_error :: "string option"

definition log_upload_batch :: "timestamp \<Rightarrow> db \<Rightarrow> string \<Rightarrow> upload_result_entry list \<Rightarrow> bool \<times> db" where
  "log_upload_batch now d batch_id upload_results =
     (if list_ex (\<lambda>res. res_event_id res = None \<or> res_status res = None) upload_results
      then (False, d)
      else
        (True,
         d\<lparr>upload_logs := upload_logs d @
             map (\<lambda>res. \<lparr>log_batch_id = batch_id, log_event_id = res_event_id res,
                          log_upload_status = res_status res, log_upload_result = res_result res,
                          log_upload_time = now, log_error_message = res_error res\<rparr>)
               upload_results\<rparr>))"


section \<open>Upload transport\<close>

text \<open>The record sent for one row (\<^verbatim>\<open>{"fields": {...}}\<close>).  Python's \<^verbatim>\<open>or\<close> takes
  the right operand when the left one is \<^verbatim>\<open>None\<close>, an empty string or zero.\<close>

record upload_fields =
  uf_summary :: string
  uf_start_time :: "int option"
  uf_end_time :: "int option"
  uf_person :: string

definition to_upload_record :: "calendar_record \<Rightarrow> upload_fields" where
  "to_upload_record r =
     \<lparr>uf_summary = (case summary r of None \<Rightarrow> [] | Some s \<Rightarrow> s),
      uf_start_time = start_time r,
      uf_end_time = (case end_time r of
                       None \<Rightarrow> start_time r
                     | Some e \<Rightarrow> if e = 0 then start_time r else Some e),
      uf_person = person_name r\<rparr>"

text \<open>
  What the network does with one \<^verbatim>\<open>batch_create\<close> request is an input of the model:
  no tenant token, an exception of the request, or a response with its status code and
  its body (\<open>None\<close> when the body is not a JSON object, so that reading it raises).
\<close>

datatype http_outcome = NoToken | RequestError | Response nat "pydict option"

text \<open>\<^verbatim>\<open>DirectCalendarUploader.batch_upload_records\<close>\<close>

definition batch_upload_records :: "http_outcome \<Rightarrow> upload_fields list \<Rightarrow> pydict option" where
  "batch_upload_records outcome records =
     (if records = [] then None
      else case outcome of
             NoToken \<Rightarrow> None
           | RequestError \<Rightarrow> None
           | Response status_code body \<Rightarrow>
               if status_code = 200 then (case body of None \<Rightarrow> None | Some result \<Rightarrow> Some result)
               else None)"

section \<open>Scheduler\<close>

definition BATCH_UPLOAD_OK :: string where
  "BATCH_UPLOAD_OK =
     [CHR 0xE6, CHR 0x89, CHR 0xB9, CHR 0xE9, CHR 0x87, CHR 0x8F, CHR 0xE4, CHR 0xB8, CHR 0x8A,
      CHR 0xE4, CHR 0xBC, CHR 0xA0, CHR 0xE6, CHR 0x88, CHR 0x90, CHR 0xE5, CHR 0x8A, CHR 0x9F]"

definition UNKNOWN_ERROR :: string where
  "UNKNOWN_ERROR =
     [CHR 0xE6, CHR 0x9C, CHR 0xAA, CHR 0xE7, CHR 0x9F, CHR 0xA5, CHR 0xE9, CHR 0x94, CHR 0x99,
      CHR 0xE8, CHR 0xAF, CHR 0xAF]"

definition NETWORK_ERROR :: string where
  "NETWORK_ERROR =
     [CHR 0xE7, CHR 0xBD, CHR 0x91, CHR 0xE7, CHR 0xBB, CHR 0x9C, CHR 0xE9, CHR 0x94, CHR 0x99,
      CHR 0xE8, CHR 0xAF, CHR 0xAF]"

definition SCHEDULE_CONFIG_batch_size :: nat where
  "SCHEDULE_CONFIG_batch_size = 50"

text \<open>\<^verbatim>\<open>str(v)\<close>, as the f-string of \<^verbatim>\<open>mark_as_failed\<close> formats the message.\<close>

fun dec_of_nat :: "nat \<Rightarrow> string" where
  "dec_of_nat n =
     (if n < 10 then [char_of (48 + n)]
      else dec_of_nat (n div 10) @ [char_of (48 + n mod 10)])"

fun py_str :: "jval \<Rightarrow> string" where
  "py_str (JStr s) = s"
| "py_str (JInt n) = (if n < 0 then CHR ''-'' # dec_of_nat (nat (- n)) else dec_of_nat (nat n))"
| "py_str (JBool b) = (if b then ''True'' else ''False'')"
| "py_str JNull = ''None''"

text \<open>\<^verbatim>\<open>result and result.get('code') == 0\<close>: a dictionary is true when it is not
  empty; \<^verbatim>\<open>False == 0\<close> holds in Python.\<close>

definition code_is_zero :: "pydict \<Rightarrow> bool" where
  "code_is_zero result =
     (case result ''code'' of
        Some (JInt n) \<Rightarrow> n = 0
      | Some (JBool b) \<Rightarrow> \<not> b
      | _ \<Rightarrow> False)"

definition upload_ok :: "pydict option \<Rightarrow> bool" where
  "upload_ok result =
     (case result of None \<Rightarrow> False | Some res \<Rightarrow> res \<noteq> Map.empty \<and> code_is_zero res)"

text \<open>\<^verbatim>\<open>result.get('msg', ...) if result else ...\<close>\<close>

definition error_msg :: "pydict option \<Rightarrow> string" where
  "error_msg result =
     (case result of
        None \<Rightarrow> NETWORK_ERROR
      | Some res \<Rightarrow>
          if res = Map.empty then NETWORK_ERROR
          else (case res ''msg'' of None \<Rightarrow> UNKNOWN_ERROR | Some v \<Rightarrow> py_str v))"

text \<open>
  The state of one run of \<^verbatim>\<open>_upload_pending_records\<close>: the store, the payloads of the
  transport calls made so far, and the two counters.  \<open>net k\<close> is what the network does
  with the call number \<open>k\<close> of the run; \<open>clock j\<close> is \<^verbatim>\<open>CURRENT_TIMESTAMP\<close> when the
  record number \<open>j\<close> of the pending sequence is marked.
\<close>

record cycle =
  cy_db :: db
  cy_calls :: "upload_fields list list"
  cy_uploaded :: nat
  cy_failed :: nat

text \<open>The two \<^verbatim>\<open>for event_id in event_ids\<close> loops; \<open>j\<close> is the number of the first
  record.\<close>

fun mark_all_uploaded :: "(nat \<Rightarrow> timestamp) \<Rightarrow> nat \<Rightarrow> string list \<Rightarrow> db \<Rightarrow> db" where
  "mark_all_uploaded clock j [] d = d"
| "mark_all_uploaded clock j (eid # event_ids) d =
     mark_all_uploaded clock (Suc j) event_ids
       (snd (mark_as_uploaded (clock j) d eid BATCH_UPLOAD_OK))"

fun mark_all_failed :: "(nat \<Rightarrow> timestamp) \<Rightarrow> nat \<Rightarrow> string \<Rightarrow> string list \<Rightarrow> db \<Rightarrow> db" where
  "mark_all_failed clock j msg [] d = d"
| "mark_all_failed clock j msg (eid # event_ids) d =
     mark_all_failed clock (Suc j) msg event_ids (snd (mark_as_failed (clock j) d eid msg))"

text \<open>The body of the batch loop, for the slice that starts at index \<open>i\<close>.\<close>

definition upload_chunk ::
  "(nat \<Rightarrow> http_outcome) \<Rightarrow> (nat \<Rightarrow> timestamp) \<Rightarrow> nat \<Rightarrow> calendar_record list \<Rightarrow> cycle \<Rightarrow> cycle" where
  "upload_chunk net clock i batch_records c =
     (let upload_batch = map to_upload_record batch_records;
          event_ids = map event_id batch_records;
          result = batch_upload_records (net (length (cy_calls c))) upload_batch
      in if upload_ok result then
           c\<lparr>cy_db := mark_all_uploaded clock i event_ids (cy_db c),
             cy_calls := cy_calls c @ [upload_batch],
             cy_uploaded := cy_uploaded c + length event_ids\<rparr>
         else
           c\<lparr>cy_db := mark_all_failed clock i (error_msg result) event_ids (cy_db c),
             cy_calls := cy_calls c @ [upload_batch],
             cy_failed := cy_failed c + length event_ids\<rparr>)"

text \<open>\<^verbatim>\<open>for i in range(0, len(pending_records), batch_size)\<close> with the slice
  \<^verbatim>\<open>pending_records[i:i + batch_size]\<close>.\<close>

function upload_loop ::
  "(nat \<Rightarrow> http_outcome) \<Rightarrow> (nat \<Rightarrow> timestamp) \<Rightarrow> nat \<Rightarrow> calendar_record list \<Rightarrow> nat \<Rightarrow> cycle \<Rightarrow> cycle" where
  "upload_loop net clock batch_size pending_records i c =
     (if batch_size = 0 \<or> length pending_records \<le> i then c
      else upload_loop net clock batch_size pending_records (i + batch_size)
             (upload_chunk net clock i (take batch_size (drop i pending_records)) c))"
  by pat_completeness auto
termination
  by (relation "measure (\<lambda>(net, clock, batch_size, pending_records, i, c). length pending_records - i)") auto

declare upload_loop.simps [simp del]

text \<open>\<^verbatim>\<open>CalendarScheduler._upload_pending_records\<close>.  Nothing is done when no record
  is pending.  A batch size of zero makes \<^verbatim>\<open>range\<close> raise; the handler of the method
  logs it, and nothing has been done.\<close>

definition upload_pending_records ::
  "(nat \<Rightarrow> http_outcome) \<Rightarrow> (nat \<Rightarrow> timestamp) \<Rightarrow> nat \<Rightarrow> db \<Rightarrow> cycle" where
  "upload_pending_records net clock batch_size d =
     (let pending_records = get_pending_records d None None;
          c0 = \<lparr>cy_db = d, cy_calls = [], cy_uploaded = 0, cy_failed = 0\<rparr>
      in if pending_records = [] then c0
         else if batch_size = 0 then c0
         else upload_loop net clock batch_size pending_records 0 c0)"

text \<open>The partition of the specification: consecutive chunks of the batch size, the
  last one with what remains.\<close>

function partition_chunks :: "nat \<Rightarrow> 'a list \<Rightarrow> 'a list list" where
  "partition_chunks n xs =
     (if n = 0 \<or> xs = [] then [] else take n xs # partition_chunks n (drop n xs))"
  by pat_completeness auto
termination
  by (relation "measure (\<lambda>(n, xs). length xs)") auto

declare partition_chunks.simps [simp del]

section \<open>Fetching and loading\<close>

text \<open>
  The filter loop of \<^verbatim>\<open>CalendarFetcher.get_calendar_events\<close>, run on the events of
  one response before the calendar file is written.  \<open>filter_start\<close> is the first second
  of the current month.  An exception in the loop leaves the method through its handler,
  and no file is written for the calendar.
\<close>

fun filter_events :: "int \<Rightarrow> event_data list \<Rightarrow> py_error + event_data list" where
  "filter_events filter_start [] = Inr []"
| "filter_events filter_start (event # events) =
     (if ev_status event = Some ''cancelled'' then filter_events filter_start events
      else if py_strip (get_str (ev_summary event) '''') = [] then filter_events filter_start events
      else
        (case py_int (case get_dict (ev_start_time event) ''timestamp'' of
                        None \<Rightarrow> JStr ''0'' | Some v \<Rightarrow> v) of
           Inl e \<Rightarrow> Inl e
         | Inr event_start_timestamp \<Rightarrow>
             if event_start_timestamp < filter_start then filter_events filter_start events
             else (case filter_events filter_start events of
                     Inl e \<Rightarrow> Inl e
                   | Inr filtered \<Rightarrow> Inr (event # filtered))))"

text \<open>
  The inner loop of \<^verbatim>\<open>CalendarScheduler._load_calendar_records\<close> over the events of
  one file.  The state is the store, the number of store calls made so far (it selects
  the \<^verbatim>\<open>CURRENT_TIMESTAMP\<close> of the next one) and \<^verbatim>\<open>added_count\<close>.
\<close>

fun load_events ::
  "platform \<Rightarrow> (nat \<Rightarrow> timestamp) \<Rightarrow> string \<Rightarrow> string \<Rightarrow> event_data list \<Rightarrow> db \<times> nat \<times> nat
     \<Rightarrow> db \<times> nat \<times> nat" where
  "load_events pf clock person file_path [] st = st"
| "load_events pf clock person file_path (event # events) (d, tick, added_count) =
     (if ev_status event \<noteq> Some ''cancelled'' then
        (case add_or_update_record pf (clock tick) d event person file_path of
           (ok, d') \<Rightarrow>
             load_events pf clock person file_path events
               (d', Suc tick, if ok then Suc added_count else added_count))
      else load_events pf clock person file_path events (d, tick, added_count))"

text \<open>
  The outer loop over the calendar files.  A file is its path and its list
  \<^verbatim>\<open>data.items\<close>, or \<open>None\<close> when opening or parsing it raises (the file is skipped
  with a warning).  \<open>person_of\<close> stands for
  \<^verbatim>\<open>os.path.splitext(os.path.basename(file_path))[0]\<close>.
\<close>

fun load_calendar_records ::
  "platform \<Rightarrow> (nat \<Rightarrow> timestamp) \<Rightarrow> (string \<Rightarrow> string) \<Rightarrow> (string \<times> event_data list option) list
     \<Rightarrow> db \<times> nat \<times> nat \<Rightarrow> db \<times> nat \<times> nat" where
  "load_calendar_records pf clock person_of [] st = st"
| "load_calendar_records pf clock person_of ((file_path, content) # calendar_files) st =
     (case content of
        None \<Rightarrow> load_calendar_records pf clock person_of calendar_files st
      | Some events \<Rightarrow>
          load_calendar_records pf clock person_of calendar_files
            (load_events pf clock (person_of file_path) file_path events st))"

section \<open>Rows after a transport attempt\<close>

text \<open>What the two mark statements leave of a row, and what a chunk's reply leaves of
  a row of the chunk: used to state the effect of an upload run.\<close>

definition uploaded_row :: "timestamp \<Rightarrow> string \<Rightarrow> calendar_record \<Rightarrow> calendar_record" where
  "uploaded_row t res r =
     r\<lparr>upload_status := Uploaded, upload_time := Some t, upload_result := Some res,
       updated_time := t\<rparr>"

definition failed_row :: "timestamp \<Rightarrow> string \<Rightarrow> calendar_record \<Rightarrow> calendar_record" where
  "failed_row t msg r =
     r\<lparr>upload_status := Failed, upload_time := Some t,
       upload_result := Some (''FAILED: '' @ msg), updated_time := t\<rparr>"

definition chunk_row :: "pydict option \<Rightarrow> timestamp \<Rightarrow> calendar_record \<Rightarrow> calendar_record" where
  "chunk_row reply t r =
     (if upload_ok reply then uploaded_row t BATCH_UPLOAD_OK r
      else failed_row t (error_msg reply) r)"

text \<open>The events of all readable files, in the order the loader meets them; and the
  origin of a stored row after loading: it has the \<open>event_id\<close> and the title of a row
  stored before, or of an event that is not cancelled.\<close>

definition file_events :: "(string \<times> event_data list option) list \<Rightarrow> event_data list" where
  "file_events calendar_files =
     concat (map (\<lambda>(file_path, content). case content of None \<Rightarrow> [] | Some events \<Rightarrow> events)
       calendar_files)"

definition from_row_or_event :: "db \<Rightarrow> event_data list \<Rightarrow> calendar_record \<Rightarrow> bool" where
  "from_row_or_event d0 events r \<longleftrightarrow>
     (\<exists>r0 \<in> set (calendar_records d0). event_id r0 = event_id r \<and> summary r0 = summary r)
     \<or> (\<exists>e \<in> set events. ev_status e \<noteq> Some ''cancelled'' \<and> ev_event_id e = Some (event_id r)
           \<and> summary r = Some (get_str (ev_summary e) ''''))"

section \<open>The ingestion half of a cycle\<close>

text \<open>
  The directory of calendar files is a list of paths with their contents.
  \<^verbatim>\<open>CalendarFetcher.get_calendar_events\<close> returns the filtered events of a response, or
  \<open>None\<close> when the request fails or the filter loop raises.
  \<^verbatim>\<open>CalendarFetcher.save_calendar_results\<close> writes one file per calendar whose events
  were returned, replacing a file of the same path; a calendar is given by the path of
  its file and the events of its response (\<open>None\<close> for a failed request).  Entries of
  the calendar list without a \<^verbatim>\<open>calendar_id\<close> are skipped by the code and are left out.
\<close>

type_synonym directory = "(string \<times> event_data list option) list"

definition get_calendar_events :: "int \<Rightarrow> event_data list option \<Rightarrow> event_data list option" where
  "get_calendar_events filter_start response =
     (case response of
        None \<Rightarrow> None
      | Some events \<Rightarrow>
          (case filter_events filter_start events of
             Inl e \<Rightarrow> None
           | Inr filtered_events \<Rightarrow> Some filtered_events))"

definition write_file :: "string \<Rightarrow> event_data list \<Rightarrow> directory \<Rightarrow> directory" where
  "write_file file_path items dir =
     filter (\<lambda>(p, content). p \<noteq> file_path) dir @ [(file_path, Some items)]"

fun save_calendar_results ::
  "int \<Rightarrow> (string \<times> event_data list option) list \<Rightarrow> directory \<Rightarrow> directory" where
  "save_calendar_results filter_start [] dir = dir"
| "save_calendar_results filter_start ((file_path, response) # calendar_list) dir =
     save_calendar_results filter_start calendar_list
       (case get_calendar_events filter_start response of
          None \<Rightarrow> dir
        | Some items \<Rightarrow> write_file file_path items dir)"

text \<open>\<^verbatim>\<open>CalendarFetcher.fetch_calendar_data\<close>: \<open>None\<close> is a run without token or
  without calendar list; an empty calendar list is reported as a failure too.\<close>

definition fetch_calendar_data ::
  "int \<Rightarrow> (string \<times> event_data list option) list option \<Rightarrow> directory \<Rightarrow> bool \<times> directory" where
  "fetch_calendar_data filter_start calendars dir =
     (case calendars of
        None \<Rightarrow> (False, dir)
      | Some calendar_list \<Rightarrow>
          if calendar_list = [] then (False, dir)
          else (True, save_calendar_results filter_start calendar_list dir))"

text \<open>Steps 1 and 2 of \<^verbatim>\<open>CalendarScheduler.execute_main_task\<close>: the cycle stops when
  fetching fails, and loads every file of the directory otherwise.  The code reads the
  files in the order of \<^verbatim>\<open>glob\<close>; the model reads them in the order of the list.\<close>

definition ingest_cycle ::
  "platform \<Rightarrow> (nat \<Rightarrow> timestamp) \<Rightarrow> (string \<Rightarrow> string) \<Rightarrow> int
     \<Rightarrow> (string \<times> event_data list option) list option \<Rightarrow> directory \<times> db \<Rightarrow> directory \<times> db" where
  "ingest_cycle pf clock person_of filter_start calendars st =
     (case st of (dir, d) \<Rightarrow>
        (case fetch_calendar_data filter_start calendars dir of
           (ok, dir') \<Rightarrow>
             if ok then (dir', fst (load_calendar_records pf clock person_of dir' (d, 0, 0)))
             else (dir', d)))"

text \<open>An event that the filter of the fetcher lets through, and a directory in which
  every readable file holds only such events: what the fetcher leaves behind.\<close>

definition admitted :: "event_data \<Rightarrow> bool" where
  "admitted e \<longleftrightarrow>
     ev_status e \<noteq> Some ''cancelled'' \<and> py_strip (get_str (ev_summary e) '''') \<noteq> []"

definition fetched_only :: "directory \<Rightarrow> bool" where
  "fetched_only dir =
     list_all (\<lambda>(p, content). case content of None \<Rightarrow> True | Some items \<Rightarrow> list_all admitted items) dir"

text \<open>Successive cycles, each with its clock, the first second of its month and what
  the network returns to it; and a store in which every row has a title that is not
  blank.\<close>

fun ingest_cycles ::
  "platform \<Rightarrow> (string \<Rightarrow> string)
     \<Rightarrow> ((nat \<Rightarrow> timestamp) \<times> int \<times> (string \<times> event_data list option) list option) list
     \<Rightarrow> directory \<times> db \<Rightarrow> directory \<times> db" where
  "ingest_cycles pf person_of [] st = st"
| "ingest_cycles pf person_of ((clock, filter_start, calendars) # cycles) st =
     ingest_cycles pf person_of cycles (ingest_cycle pf clock person_of filter_start calendars st)"

definition titled :: "db \<Rightarrow> bool" where
  "titled d =
     list_all (\<lambda>r. case summary r of None \<Rightarrow> False | Some s \<Rightarrow> py_strip s \<noteq> [])
       (calendar_records d)"

section \<open>Sample data\<close>

text \<open>A platform in the UTC zone whose digest is the title itself, one event, one
  stored row of that event under an older title, and two small stores.\<close>

definition demo_platform :: platform where
  "demo_platform = utc_platform kf_summary"

definition demo_event :: event_data where
  "demo_event =
     \<lparr>ev_event_id = Some ''e1'', ev_summary = Some ''Standup'',
      ev_status = Some ''confirmed'',
      ev_start_time = Some [''timestamp'' \<mapsto> JStr ''1700000000''],
      ev_end_time = None, ev_description = None\<rparr>"

definition demo_row :: calendar_record where
  "demo_row =
     \<lparr>event_id = ''e1'', person_name = ''Ann'', summary = Some ''Old title'',
      start_time = Some 1700000000000, end_time = None, calendar_file = Some ''Ann.txt'',
      record_hash = Some ''Old title'', upload_status = Uploaded, upload_time = Some 10,
      upload_result = Some ''ok'', created_time = 1, updated_time = 10\<rparr>"

definition demo_db :: db where
  "demo_db = \<lparr>calendar_records = [demo_row], upload_logs = []\<rparr>"

definition empty_db :: db where
  "empty_db = \<lparr>calendar_records = [], upload_logs = []\<rparr>"

text \<open>A store with three pending rows, a network that accepts the first request of a
  run and breaks every later one, and a clock.\<close>

definition pending_row :: "string \<Rightarrow> string \<Rightarrow> timestamp \<Rightarrow> calendar_record" where
  "pending_row eid person t =
     \<lparr>event_id = eid, person_name = person, summary = Some ''Meeting'',
      start_time = Some 1700000000000, end_time = None, calendar_file = Some ''cal.txt'',
      record_hash = Some ''Meeting'', upload_status = Pending, upload_time = None,
      upload_result = None, created_time = t, updated_time = t\<rparr>"

definition demo_db3 :: db where
  "demo_db3 =
     \<lparr>calendar_records =
        [pending_row ''a'' ''Ann'' 1, pending_row ''b'' ''Bob'' 2, pending_row ''c'' ''Ann'' 3],
      upload_logs = []\<rparr>"

definition demo_net :: "nat \<Rightarrow> http_outcome" where
  "demo_net k = (if k = 0 then Response 200 (Some [''code'' \<mapsto> JInt 0]) else RequestError)"

definition demo_clock :: "nat \<Rightarrow> timestamp" where
  "demo_clock j = 100 + j"



text \<open>An event with a blank title, a cancelled event, and the person of a file name
  without directory.\<close>

definition blank_event :: event_data where
  "blank_event = demo_event\<lparr>ev_event_id := Some ''e2'', ev_summary := Some ''   ''\<rparr>"

definition cancelled_event :: event_data where
  "cancelled_event = demo_event\<lparr>ev_event_id := Some ''e3'', ev_status := Some ''cancelled''\<rparr>"

definition demo_person_of :: "string \<Rightarrow> string" where
  "demo_person_of file_path = takeWhile (\<lambda>c. c \<noteq> CHR ''.'') file_path"

text \<open>The sample event with a start time that does not fit 64 bits once it is in
  milliseconds.\<close>

definition huge_event :: event_data where
  "huge_event = demo_event\<lparr>ev_start_time := Some [''timestamp'' \<mapsto> JStr ''9223372036854776'']\<rparr>"

text \<open>A store with five pending rows, and a network whose first reply of a run
  reports code 0, whose second reply reports code 99 with a message, and whose later
  requests break.\<close>

definition demo_db5 :: db where
  "demo_db5 =
     \<lparr>calendar_records =
        [pending_row ''a'' ''Ann'' 1, pending_row ''b'' ''Bob'' 2, pending_row ''c'' ''Ann'' 3,
         pending_row ''d'' ''Bob'' 4, pending_row ''e'' ''Ann'' 5],
      upload_logs = []\<rparr>"

definition demo_net3 :: "nat \<Rightarrow> http_outcome" where
  "demo_net3 k =
     (if k = 0 then Response 200 (Some [''code'' \<mapsto> JInt 0, ''msg'' \<mapsto> JStr ''success''])
      else if k = 1 then Response 200 (Some [''code'' \<mapsto> JInt 99, ''msg'' \<mapsto> JStr ''rate limited''])
      else RequestError)"

section \<open>Properties of the record store\<close>

lemma extract_timestamp_Inr: "\<exists>v. extract_timestamp pf td = Inr v"
  by (simp add: extract_timestamp_def split: sum.splits)

lemma find_map_upd:
  "(\<And>r. event_id (f r) = event_id r) \<Longrightarrow>
   find (\<lambda>r. event_id r = eid) (map (\<lambda>r. if event_id r = eid then f r else r) rows)
     = map_option f (find (\<lambda>r. event_id r = eid) rows)"
  by (induction rows) auto

lemma find_append_rows:
  "find P (xs @ ys) = (case find P xs of None \<Rightarrow> find P ys | Some x \<Rightarrow> Some x)"
  by (induction xs) auto

lemma upsert_unchanged:
  assumes "ev_event_id ev = Some eid" "eid \<noteq> []" "select_by_event_id d eid = Some r"
    "record_hash r = Some (generate_record_hash pf ev)"
  shows "add_or_update_record pf now d ev p f = (False, d)"
  using assms extract_timestamp_Inr[of pf "get_dict (ev_start_time ev)"]
    extract_timestamp_Inr[of pf "get_dict (ev_end_time ev)"]
  by (auto simp: add_or_update_record_def Let_def)

lemma upsert_no_event_id:
  "ev_event_id ev = None \<or> ev_event_id ev = Some [] \<Longrightarrow>
   add_or_update_record pf now d ev p f = (False, d)"
  by (auto simp: add_or_update_record_def)

lemma upsert_unbindable:
  assumes "ev_event_id ev = Some eid" "eid \<noteq> []" "\<not> bindable_times pf ev"
  shows "add_or_update_record pf now d ev p f = (False, d)"
proof -
  obtain s where s: "extract_timestamp pf (get_dict (ev_start_time ev)) = Inr s"
    using extract_timestamp_Inr by blast
  obtain e where e: "extract_timestamp pf (get_dict (ev_end_time ev)) = Inr e"
    using extract_timestamp_Inr by blast
  have "\<not> (sqlite_int_ok s \<and> sqlite_int_ok e)"
    using assms(3) by (simp add: bindable_times_def s e)
  then show ?thesis
    using assms(1,2)
    by (auto simp: add_or_update_record_def s e Let_def split: option.splits)
qed

lemma upsert_twice:
  "add_or_update_record pf t2 (snd (add_or_update_record pf t1 d ev p f)) ev p2 f2
     = (False, snd (add_or_update_record pf t1 d ev p f))"
proof (cases "ev_event_id ev")
  case None
  then show ?thesis by (simp add: add_or_update_record_def)
next
  case (Some eid)
  show ?thesis
  proof (cases "eid = []")
    case True
    with Some show ?thesis by (simp add: add_or_update_record_def)
  next
    case False
    show ?thesis
    proof (cases "bindable_times pf ev")
      case bind: False
      show ?thesis by (simp add: upsert_unbindable[OF Some False bind])
    next
      case bind: True
      obtain s where s: "extract_timestamp pf (get_dict (ev_start_time ev)) = Inr s"
        using extract_timestamp_Inr by blast
      obtain e where e: "extract_timestamp pf (get_dict (ev_end_time ev)) = Inr e"
        using extract_timestamp_Inr by blast
      have ok: "sqlite_int_ok s" "sqlite_int_ok e"
        using bind by (simp_all add: bindable_times_def s e)
      let ?d1 = "snd (add_or_update_record pf t1 d ev p f)"
      have "\<exists>r. select_by_event_id ?d1 eid = Some r \<and> record_hash r = Some (generate_record_hash pf ev)"
        using Some False s e ok
        by (auto simp: add_or_update_record_def Let_def select_by_event_id_def update_where_def
              find_map_upd find_append_rows split: option.splits)
      then show ?thesis using upsert_unchanged[OF Some False] by blast
    qed
  qed
qed

lemma upsert_changed:
  assumes "ev_event_id ev = Some eid" "eid \<noteq> []" "select_by_event_id d eid = Some r"
    "record_hash r \<noteq> Some (generate_record_hash pf ev)"
    "extract_timestamp pf (get_dict (ev_start_time ev)) = Inr s"
    "extract_timestamp pf (get_dict (ev_end_time ev)) = Inr e"
    "sqlite_int_ok s" "sqlite_int_ok e"
  shows "add_or_update_record pf now d ev p f =
     (True, update_where (\<lambda>x. event_id x = eid)
        (\<lambda>x. x\<lparr>summary := Some (get_str (ev_summary ev) ''''), start_time := s, end_time := e,
                calendar_file := Some f, record_hash := Some (generate_record_hash pf ev),
                upload_status := Pending, upload_time := None, upload_result := None,
                updated_time := now\<rparr>) d)"
  using assms by (simp add: add_or_update_record_def Let_def)

lemma select_update_where:
  "(\<And>x. event_id (g x) = event_id x) \<Longrightarrow>
   select_by_event_id (update_where (\<lambda>x. event_id x = eid) g d) k
     = (if k = eid then map_option g (select_by_event_id d k) else select_by_event_id d k)"
proof -
  assume g: "\<And>x. event_id (g x) = event_id x"
  have "find (\<lambda>r. event_id r = k) (map (\<lambda>r. if event_id r = eid then g r else r) rows)
      = (if k = eid then map_option g (find (\<lambda>r. event_id r = k) rows)
         else find (\<lambda>r. event_id r = k) rows)" for rows
    by (induction rows) (auto simp: g)
  then show ?thesis by (simp add: select_by_event_id_def update_where_def)
qed

lemma upload_logs_update_where [simp]: "upload_logs (update_where c g d) = upload_logs d"
  by (simp add: update_where_def)

lemma select_SomeD:
  "select_by_event_id d eid = Some r \<Longrightarrow> event_id r = eid \<and> r \<in> set (calendar_records d)"
  unfolding select_by_event_id_def find_Some_iff by auto

lemma select_None_iff:
  "select_by_event_id d eid = None \<longleftrightarrow> (\<forall>r \<in> set (calendar_records d). event_id r \<noteq> eid)"
  unfolding select_by_event_id_def find_None_iff by auto

lemma demo_ts: "extract_timestamp demo_platform [''timestamp'' \<mapsto> JStr ''1700000000''] = Inr (Some 1700000000000)"
  by (simp add: extract_timestamp_def extract_timestamp_try_def py_int_str_def int_strip_def
      int_isspace_def is_digit_def digit_val_def)

lemma demo_huge_ts:
  "extract_timestamp demo_platform [''timestamp'' \<mapsto> JStr ''9223372036854776'']
     = Inr (Some 9223372036854776000)"
  by (simp add: extract_timestamp_def extract_timestamp_try_def py_int_str_def int_strip_def
      int_isspace_def is_digit_def digit_val_def)

lemma demo_no_time: "extract_timestamp demo_platform Map.empty = Inr None"
  by (simp add: extract_timestamp_def extract_timestamp_try_def)

lemma event_ids_update_where:
  "(\<And>x. event_id (g x) = event_id x) \<Longrightarrow>
   map event_id (calendar_records (update_where c g d)) = map event_id (calendar_records d)"
  by (simp add: update_where_def comp_def cong: map_cong)

lemma upsert_keeps_unique:
  assumes "distinct (map event_id (calendar_records d))"
  shows "distinct (map event_id (calendar_records (snd (add_or_update_record pf now d ev p f))))"
proof -
  obtain s where s: "extract_timestamp pf (get_dict (ev_start_time ev)) = Inr s"
    using extract_timestamp_Inr by blast
  obtain e where e: "extract_timestamp pf (get_dict (ev_end_time ev)) = Inr e"
    using extract_timestamp_Inr by blast
  show ?thesis
    using assms
    by (auto simp: add_or_update_record_def s e Let_def event_ids_update_where select_None_iff
        split: option.splits)
qed

section \<open>Properties of the upload run\<close>

lemma event_id_uploaded_row [simp]: "event_id (uploaded_row t res r) = event_id r"
  by (simp add: uploaded_row_def)

lemma event_id_failed_row [simp]: "event_id (failed_row t msg r) = event_id r"
  by (simp add: failed_row_def)

lemma event_id_chunk_row [simp]: "event_id (chunk_row reply t r) = event_id r"
  by (simp add: chunk_row_def)

lemma rowcount_zero_select:
  "rowcount_where (\<lambda>r. event_id r = e) d = 0 \<longleftrightarrow> select_by_event_id d e = None"
  by (auto simp: rowcount_where_def select_None_iff filter_empty_conv)

lemma update_where_none:
  "select_by_event_id d e = None \<Longrightarrow> update_where (\<lambda>r. event_id r = e) g d = d"
  by (auto simp: update_where_def select_None_iff map_idI)

lemma mark_as_uploaded_db:
  "snd (mark_as_uploaded t d e res) = update_where (\<lambda>r. event_id r = e) (uploaded_row t res) d"
proof (cases "select_by_event_id d e")
  case None
  then show ?thesis
    using rowcount_zero_select[of e d]
    by (simp add: mark_as_uploaded_def Let_def update_where_none)
next
  case (Some r)
  then have "rowcount_where (\<lambda>r. event_id r = e) d > 0"
    using rowcount_zero_select[of e d] by simp
  then show ?thesis
    by (simp add: mark_as_uploaded_def Let_def uploaded_row_def[abs_def])
qed

lemma mark_as_failed_db:
  "snd (mark_as_failed t d e msg) = update_where (\<lambda>r. event_id r = e) (failed_row t msg) d"
  by (simp add: mark_as_failed_def Let_def failed_row_def[abs_def])

lemma select_mark_uploaded:
  "select_by_event_id (snd (mark_as_uploaded t d e res)) k
     = (if k = e then map_option (uploaded_row t res) (select_by_event_id d k)
        else select_by_event_id d k)"
  by (simp add: mark_as_uploaded_db select_update_where)

lemma select_mark_failed:
  "select_by_event_id (snd (mark_as_failed t d e msg)) k
     = (if k = e then map_option (failed_row t msg) (select_by_event_id d k)
        else select_by_event_id d k)"
  by (simp add: mark_as_failed_db select_update_where)

lemma select_mark_all_uploaded_other:
  "k \<notin> set ids \<Longrightarrow> select_by_event_id (mark_all_uploaded clock j ids d) k = select_by_event_id d k"
  by (induction ids arbitrary: j d) (auto simp: select_mark_uploaded)

lemma select_mark_all_failed_other:
  "k \<notin> set ids \<Longrightarrow> select_by_event_id (mark_all_failed clock j msg ids d) k = select_by_event_id d k"
  by (induction ids arbitrary: j d) (auto simp: select_mark_failed)

lemma select_mark_all_uploaded_mem:
  "distinct ids \<Longrightarrow> k \<in> set ids \<Longrightarrow>
   \<exists>t. select_by_event_id (mark_all_uploaded clock j ids d) k
        = map_option (uploaded_row t BATCH_UPLOAD_OK) (select_by_event_id d k)"
proof (induction ids arbitrary: j d)
  case Nil
  then show ?case by simp
next
  case (Cons e ids)
  show ?case
  proof (cases "k = e")
    case True
    then have "k \<notin> set ids" using Cons.prems by simp
    then show ?thesis using True
      by (auto simp: select_mark_all_uploaded_other select_mark_uploaded)
  next
    case False
    then have "k \<in> set ids" "distinct ids" using Cons.prems by auto
    from Cons.IH[OF this(2,1), of "Suc j" "snd (mark_as_uploaded (clock j) d e BATCH_UPLOAD_OK)"]
      False show ?thesis
      by (simp add: select_mark_uploaded)
  qed
qed

lemma select_mark_all_failed_mem:
  "distinct ids \<Longrightarrow> k \<in> set ids \<Longrightarrow>
   \<exists>t. select_by_event_id (mark_all_failed clock j msg ids d) k
        = map_option (failed_row t msg) (select_by_event_id d k)"
proof (induction ids arbitrary: j d)
  case Nil
  then show ?case by simp
next
  case (Cons e ids)
  show ?case
  proof (cases "k = e")
    case True
    then have "k \<notin> set ids" using Cons.prems by simp
    then show ?thesis using True
      by (auto simp: select_mark_all_failed_other select_mark_failed)
  next
    case False
    then have "k \<in> set ids" "distinct ids" using Cons.prems by auto
    from Cons.IH[OF this(2,1), of "Suc j" "snd (mark_as_failed (clock j) d e msg)"]
      False show ?thesis
      by (simp add: select_mark_failed)
  qed
qed

lemma logs_mark_all_uploaded [simp]:
  "upload_logs (mark_all_uploaded clock j ids d) = upload_logs d"
  by (induction ids arbitrary: j d) (auto simp: mark_as_uploaded_db)

lemma logs_mark_all_failed [simp]:
  "upload_logs (mark_all_failed clock j msg ids d) = upload_logs d"
  by (induction ids arbitrary: j d) (auto simp: mark_as_failed_db)

lemma calls_upload_chunk:
  "cy_calls (upload_chunk net clock i b c) = cy_calls c @ [map to_upload_record b]"
  by (simp add: upload_chunk_def Let_def)

lemma logs_upload_chunk [simp]:
  "upload_logs (cy_db (upload_chunk net clock i b c)) = upload_logs (cy_db c)"
  by (simp add: upload_chunk_def Let_def)

lemma select_upload_chunk_other:
  "k \<notin> event_id ` set b \<Longrightarrow>
   select_by_event_id (cy_db (upload_chunk net clock i b c)) k = select_by_event_id (cy_db c) k"
  by (simp add: upload_chunk_def Let_def select_mark_all_uploaded_other select_mark_all_failed_other)

lemma select_upload_chunk_mem:
  assumes "distinct (map event_id b)" "r \<in> set b"
  shows "\<exists>t. select_by_event_id (cy_db (upload_chunk net clock i b c)) (event_id r)
     = map_option
         (chunk_row (batch_upload_records (net (length (cy_calls c))) (map to_upload_record b)) t)
         (select_by_event_id (cy_db c) (event_id r))"
proof -
  let ?reply = "batch_upload_records (net (length (cy_calls c))) (map to_upload_record b)"
  have mem: "event_id r \<in> set (map event_id b)" using assms(2) by simp
  show ?thesis
  proof (cases "upload_ok ?reply")
    case True
    then have f: "chunk_row ?reply t = uploaded_row t BATCH_UPLOAD_OK" for t
      by (simp add: chunk_row_def fun_eq_iff)
    from select_mark_all_uploaded_mem[OF assms(1) mem, of clock i "cy_db c"] True
    show ?thesis by (simp add: upload_chunk_def Let_def f)
  next
    case False
    then have f: "chunk_row ?reply t = failed_row t (error_msg ?reply)" for t
      by (simp add: chunk_row_def fun_eq_iff)
    from select_mark_all_failed_mem[OF assms(1) mem, of clock i "error_msg ?reply" "cy_db c"] False
    show ?thesis by (simp add: upload_chunk_def Let_def f)
  qed
qed

lemma partition_chunks_unfold:
  "0 < n \<Longrightarrow> xs \<noteq> [] \<Longrightarrow> partition_chunks n xs = take n xs # partition_chunks n (drop n xs)"
  by (subst partition_chunks.simps) simp

lemma partition_chunks_Nil [simp]: "partition_chunks n [] = []"
  by (subst partition_chunks.simps) simp

lemma partition_chunks_zero [simp]: "partition_chunks 0 xs = []"
  by (subst partition_chunks.simps) simp

lemma concat_partition_chunks: "0 < n \<Longrightarrow> concat (partition_chunks n xs) = xs"
proof (induction n xs rule: partition_chunks.induct)
  case (1 n xs)
  show ?case
  proof (cases "xs = []")
    case True
    then show ?thesis by simp
  next
    case False
    with 1 show ?thesis by (simp add: partition_chunks_unfold)
  qed
qed

lemma length_partition_chunks:
  "0 < n \<Longrightarrow> b \<in> set (partition_chunks n xs) \<Longrightarrow> 0 < length b \<and> length b \<le> n"
proof (induction n xs rule: partition_chunks.induct)
  case (1 n xs)
  show ?case
  proof (cases "xs = []")
    case True
    with 1 show ?thesis by simp
  next
    case False
    with 1 show ?thesis by (auto simp: partition_chunks_unfold)
  qed
qed

lemma partition_chunks_120_50:
  assumes "length xs = 120"
  shows "map length (partition_chunks 50 xs) = [50, 50, 20]"
proof -
  have a: "xs \<noteq> []" "drop 50 xs \<noteq> []" "drop 50 (drop 50 xs) \<noteq> []" "drop 50 (drop 50 (drop 50 xs)) = []"
    using assms by auto
  show ?thesis
    using assms a by (simp add: partition_chunks_unfold)
qed

lemma upload_loop_unfold:
  "0 < bs \<Longrightarrow> i < length pend \<Longrightarrow>
   upload_loop net clock bs pend i c
     = upload_loop net clock bs pend (i + bs) (upload_chunk net clock i (take bs (drop i pend)) c)"
  by (subst upload_loop.simps) simp

lemma upload_loop_done:
  "length pend \<le> i \<Longrightarrow> upload_loop net clock bs pend i c = c"
  by (subst upload_loop.simps) simp

lemma chunks_drop_unfold:
  "0 < bs \<Longrightarrow> i < length pend \<Longrightarrow>
   partition_chunks bs (drop i pend) = take bs (drop i pend) # partition_chunks bs (drop (i + bs) pend)"
  by (simp add: partition_chunks_unfold add.commute)

lemma calls_upload_loop:
  "0 < bs \<Longrightarrow>
   cy_calls (upload_loop net clock bs pend i c)
     = cy_calls c @ map (map to_upload_record) (partition_chunks bs (drop i pend))"
proof (induction net clock bs pend i c rule: upload_loop.induct)
  case (1 net clock bs pend i c)
  show ?case
  proof (cases "i < length pend")
    case True
    with 1 show ?thesis
      by (simp add: upload_loop_unfold chunks_drop_unfold calls_upload_chunk)
  next
    case False
    then show ?thesis by (simp add: upload_loop_done)
  qed
qed

lemma logs_upload_loop:
  "upload_logs (cy_db (upload_loop net clock bs pend i c)) = upload_logs (cy_db c)"
proof (induction net clock bs pend i c rule: upload_loop.induct)
  case (1 net clock bs pend i c)
  show ?case
  proof (cases "bs = 0 \<or> length pend \<le> i")
    case True
    then show ?thesis by (subst upload_loop.simps) simp
  next
    case False
    with 1 show ?thesis by (subst upload_loop.simps) simp
  qed
qed

lemma select_upload_loop_other:
  "k \<notin> event_id ` set (drop i pend) \<Longrightarrow>
   select_by_event_id (cy_db (upload_loop net clock bs pend i c)) k = select_by_event_id (cy_db c) k"
proof (induction net clock bs pend i c rule: upload_loop.induct)
  case (1 net clock bs pend i c)
  show ?case
  proof (cases "bs = 0 \<or> length pend \<le> i")
    case True
    then show ?thesis by (subst upload_loop.simps) simp
  next
    case False
    have sub1: "set (take bs (drop i pend)) \<subseteq> set (drop i pend)" by (rule set_take_subset)
    have eq: "drop (i + bs) pend = drop bs (drop i pend)" by (simp add: add.commute)
    have sub2: "set (drop (i + bs) pend) \<subseteq> set (drop i pend)"
      unfolding eq by (rule set_drop_subset)
    have k1: "k \<notin> event_id ` set (take bs (drop i pend))" using sub1 "1.prems" by blast
    have k2: "k \<notin> event_id ` set (drop (i + bs) pend)" using sub2 "1.prems" by blast
    from "1.IH"[OF False k2] False k1 show ?thesis
      by (subst upload_loop.simps) (simp add: select_upload_chunk_other)
  qed
qed

lemma select_upload_loop_mem:
  assumes "0 < bs" "distinct (map event_id pend)"
  shows "m < length (partition_chunks bs (drop i pend)) \<Longrightarrow>
         r \<in> set (partition_chunks bs (drop i pend) ! m) \<Longrightarrow>
   \<exists>t. select_by_event_id (cy_db (upload_loop net clock bs pend i c)) (event_id r)
     = map_option
         (chunk_row (batch_upload_records (net (length (cy_calls c) + m))
            (map to_upload_record (partition_chunks bs (drop i pend) ! m))) t)
         (select_by_event_id (cy_db c) (event_id r))"
  using assms
proof (induction net clock bs pend i c arbitrary: m rule: upload_loop.induct)
  case (1 net clock bs pend i c)
  show ?case
  proof (cases "i < length pend")
    case False
    with "1.prems" show ?thesis by simp
  next
    case True
    let ?b = "take bs (drop i pend)"
    let ?c1 = "upload_chunk net clock i ?b c"
    have bs: "0 < bs" by (rule "1.prems"(3))
    have cond: "\<not> (bs = 0 \<or> length pend \<le> i)" using True bs by simp
    have unf: "partition_chunks bs (drop i pend) = ?b # partition_chunks bs (drop (i + bs) pend)"
      using bs True by (rule chunks_drop_unfold)
    have eq: "drop (i + bs) pend = drop bs (drop i pend)" by (simp add: add.commute)
    have d0: "distinct (map event_id (drop i pend))"
      using "1.prems"(4) by (simp add: distinct_drop flip: drop_map)
    have "distinct (map event_id (take bs (drop i pend) @ drop bs (drop i pend)))"
      using d0 by (simp only: append_take_drop_id)
    then have dis: "distinct (map event_id ?b)" "distinct (map event_id (drop (i + bs) pend))"
      "event_id ` set ?b \<inter> event_id ` set (drop (i + bs) pend) = {}"
      unfolding eq by simp_all
    show ?thesis
    proof (cases m)
      case 0
      then have rb: "r \<in> set ?b" using "1.prems"(2) unf by simp
      then have "event_id r \<notin> event_id ` set (drop (i + bs) pend)" using dis(3) by blast
      then have rest: "select_by_event_id (cy_db (upload_loop net clock bs pend (i + bs) ?c1)) (event_id r)
          = select_by_event_id (cy_db ?c1) (event_id r)"
        by (rule select_upload_loop_other)
      from select_upload_chunk_mem[OF dis(1) rb, of net clock i c] 0 show ?thesis
        by (simp add: upload_loop_unfold[OF bs True] rest unf)
    next
      case (Suc m')
      then have m': "m' < length (partition_chunks bs (drop (i + bs) pend))"
        and rm: "r \<in> set (partition_chunks bs (drop (i + bs) pend) ! m')"
        using "1.prems"(1,2) unf by simp_all
      have "set (partition_chunks bs (drop (i + bs) pend) ! m') \<subseteq> set (concat (partition_chunks bs (drop (i + bs) pend)))"
        using m' by (auto intro: nth_mem)
      then have "r \<in> set (drop (i + bs) pend)"
        using rm bs by (auto simp: concat_partition_chunks)
      then have "event_id r \<notin> event_id ` set ?b" using dis(3) by blast
      then have first: "select_by_event_id (cy_db ?c1) (event_id r) = select_by_event_id (cy_db c) (event_id r)"
        by (rule select_upload_chunk_other)
      from "1.IH"[OF cond m' rm bs "1.prems"(4)] Suc show ?thesis
        by (simp add: upload_loop_unfold[OF bs True] first unf calls_upload_chunk)
    qed
  qed
qed

lemma select_of_mem:
  "distinct (map event_id (calendar_records d)) \<Longrightarrow> r \<in> set (calendar_records d) \<Longrightarrow>
   select_by_event_id d (event_id r) = Some r"
proof -
  have "distinct (map event_id rows) \<Longrightarrow> r \<in> set rows \<Longrightarrow>
        find (\<lambda>x. event_id x = event_id r) rows = Some r" for rows
    by (induction rows) auto
  then show "distinct (map event_id (calendar_records d)) \<Longrightarrow> r \<in> set (calendar_records d) \<Longrightarrow>
   select_by_event_id d (event_id r) = Some r"
    by (simp add: select_by_event_id_def)
qed


lemma set_get_pending:
  "set (get_pending_records d None None) = {r \<in> set (calendar_records d). upload_status r = Pending}"
  by (auto simp: get_pending_records_def sql_limit_def pending_cond_def py_truthy_str_def)


lemma distinct_get_pending:
  assumes "distinct (map event_id (calendar_records d))"
  shows "distinct (map event_id (get_pending_records d p l))"
proof -
  let ?f = "filter (pending_cond p) (calendar_records d)"
  have "distinct (map event_id ?f)" using assms by (rule distinct_map_filter)
  then have "distinct ?f" "inj_on event_id (set ?f)" by (simp_all add: distinct_map)
  then have "distinct (map event_id (sort_key created_time ?f))"
    by (simp add: distinct_map)
  then show ?thesis
    by (auto simp: get_pending_records_def sql_limit_def take_map[symmetric] split: option.splits
        intro: distinct_take)
qed

lemma counts_upload_chunk:
  "cy_uploaded (upload_chunk net clock i b c) + cy_failed (upload_chunk net clock i b c)
     = cy_uploaded c + cy_failed c + length b"
  by (simp add: upload_chunk_def Let_def)

lemma counts_upload_loop:
  "0 < bs \<Longrightarrow>
   cy_uploaded (upload_loop net clock bs pend i c) + cy_failed (upload_loop net clock bs pend i c)
     = cy_uploaded c + cy_failed c + (length pend - i)"
proof (induction net clock bs pend i c rule: upload_loop.induct)
  case (1 net clock bs pend i c)
  show ?case
  proof (cases "i < length pend")
    case True
    with 1 show ?thesis
      by (simp add: upload_loop_unfold counts_upload_chunk)
  next
    case False
    then show ?thesis by (simp add: upload_loop_done)
  qed
qed

lemma upload_run_calls:
  "0 < bs \<Longrightarrow>
   cy_calls (upload_pending_records net clock bs d)
     = map (map to_upload_record) (partition_chunks bs (get_pending_records d None None))"
  by (simp add: upload_pending_records_def Let_def calls_upload_loop)

lemma upload_run_logs:
  "upload_logs (cy_db (upload_pending_records net clock bs d)) = upload_logs d"
  by (simp add: upload_pending_records_def Let_def logs_upload_loop)

lemma upload_run_counts:
  "0 < bs \<Longrightarrow>
   cy_uploaded (upload_pending_records net clock bs d) + cy_failed (upload_pending_records net clock bs d)
     = length (get_pending_records d None None)"
  by (simp add: upload_pending_records_def Let_def counts_upload_loop)

lemma upload_run_row:
  assumes "0 < bs" "distinct (map event_id (calendar_records d))"
    and "m < length (partition_chunks bs (get_pending_records d None None))"
    and "r \<in> set (partition_chunks bs (get_pending_records d None None) ! m)"
  shows "\<exists>t. select_by_event_id (cy_db (upload_pending_records net clock bs d)) (event_id r)
     = Some (chunk_row (batch_upload_records (net m)
               (map to_upload_record (partition_chunks bs (get_pending_records d None None) ! m))) t r)"
proof -
  let ?pend = "get_pending_records d None None"
  let ?c0 = "\<lparr>cy_db = d, cy_calls = [], cy_uploaded = 0, cy_failed = 0\<rparr>"
  have ne: "?pend \<noteq> []" using assms(3) by auto
  have run: "upload_pending_records net clock bs d = upload_loop net clock bs ?pend 0 ?c0"
    using ne assms(1) by (simp add: upload_pending_records_def Let_def)
  have "partition_chunks bs ?pend ! m \<in> set (partition_chunks bs ?pend)"
    using assms(3) by simp
  then have "r \<in> set (concat (partition_chunks bs ?pend))" using assms(4) by auto
  then have "r \<in> set ?pend" using assms(1) by (simp add: concat_partition_chunks)
  then have "r \<in> set (calendar_records d)" using set_get_pending by blast
  then have sel: "select_by_event_id d (event_id r) = Some r"
    using assms(2) by (simp add: select_of_mem)
  from select_upload_loop_mem[OF assms(1) distinct_get_pending[OF assms(2)],
      where m = m and i = 0 and r = r and net = net and clock = clock and c = ?c0]
    assms(3,4) sel
  show ?thesis by (simp add: run)
qed

lemma upload_run_untouched:
  assumes "distinct (map event_id (calendar_records d))"
    and "r \<in> set (calendar_records d)" and "upload_status r \<noteq> Pending"
  shows "select_by_event_id (cy_db (upload_pending_records net clock bs d)) (event_id r) = Some r"
proof -
  let ?pend = "get_pending_records d None None"
  have "event_id r \<notin> event_id ` set ?pend"
  proof
    assume "event_id r \<in> event_id ` set ?pend"
    then obtain q where q: "q \<in> set ?pend" "event_id q = event_id r" by auto
    then have qd: "q \<in> set (calendar_records d)" "upload_status q = Pending"
      using set_get_pending by auto
    have "inj_on event_id (set (calendar_records d))" using assms(1) by (simp add: distinct_map)
    then have "q = r" using qd(1) assms(2) q(2) by (auto dest: inj_onD)
    then show False using qd(2) assms(3) by simp
  qed
  then have "select_by_event_id (cy_db (upload_loop net clock bs ?pend 0
       \<lparr>cy_db = d, cy_calls = [], cy_uploaded = 0, cy_failed = 0\<rparr>)) (event_id r)
     = select_by_event_id d (event_id r)"
    using select_upload_loop_other[of "event_id r" 0 ?pend net clock bs] by simp
  then show ?thesis
    using select_of_mem[OF assms(1,2)] by (simp add: upload_pending_records_def Let_def)
qed

lemma upload_ok_iff:
  "upload_ok (batch_upload_records outcome recs)
     \<longleftrightarrow> recs \<noteq> [] \<and> (\<exists>body. outcome = Response 200 (Some body) \<and> code_is_zero body)"
proof -
  have "code_is_zero body \<Longrightarrow> body \<noteq> Map.empty" for body
    by (auto simp: code_is_zero_def)
  then show ?thesis
    by (cases outcome) (auto simp: upload_ok_def batch_upload_records_def split: option.splits)
qed

lemma demo_pending:
  "get_pending_records demo_db3 None None
     = [pending_row ''a'' ''Ann'' 1, pending_row ''b'' ''Bob'' 2, pending_row ''c'' ''Ann'' 3]"
  by (simp add: get_pending_records_def demo_db3_def sql_limit_def pending_cond_def
      py_truthy_str_def pending_row_def)

lemma demo_chunks:
  "partition_chunks 2 [x, y, z] = [[x, y], [z]]"
  by (simp add: partition_chunks_unfold)

lemma demo_distinct: "distinct (map event_id (calendar_records demo_db3))"
  by (simp add: demo_db3_def pending_row_def)








lemma chunk_row_success:
  assumes "recs \<noteq> []" and "outcome = Response 200 (Some body)"
    and "body ''code'' = Some (JInt 0) \<or> body ''code'' = Some (JBool False)"
  shows "chunk_row (batch_upload_records outcome recs) t r
     = r\<lparr>upload_status := Uploaded, upload_time := Some t,
         upload_result := Some BATCH_UPLOAD_OK, updated_time := t\<rparr>"
proof -
  have "code_is_zero body" using assms(3) by (auto simp: code_is_zero_def)
  then have "upload_ok (batch_upload_records outcome recs)"
    using assms(1,2) upload_ok_iff by blast
  then show ?thesis by (simp add: chunk_row_def uploaded_row_def)
qed

lemma chunk_row_no_result:
  assumes "(\<forall>body. outcome \<noteq> Response 200 (Some body)) \<or> outcome = Response 200 (Some Map.empty)"
  shows "chunk_row (batch_upload_records outcome recs) t r
     = r\<lparr>upload_status := Failed, upload_time := Some t,
         upload_result := Some (''FAILED: '' @ NETWORK_ERROR), updated_time := t\<rparr>"
proof -
  have res: "batch_upload_records outcome recs = None \<or> batch_upload_records outcome recs = Some Map.empty"
    using assms by (cases outcome) (auto simp: batch_upload_records_def split: option.splits)
  then have "\<not> upload_ok (batch_upload_records outcome recs)"
    and "error_msg (batch_upload_records outcome recs) = NETWORK_ERROR"
    by (auto simp: upload_ok_def error_msg_def)
  then show ?thesis by (simp add: chunk_row_def failed_row_def)
qed

lemma chunk_row_app_error:
  assumes "recs \<noteq> []" and "outcome = Response 200 (Some body)" and "body \<noteq> Map.empty"
    and "body ''code'' \<noteq> Some (JInt 0)" and "body ''code'' \<noteq> Some (JBool False)"
  shows "chunk_row (batch_upload_records outcome recs) t r
     = r\<lparr>upload_status := Failed, upload_time := Some t,
         upload_result := Some (''FAILED: '' @ (case body ''msg'' of None \<Rightarrow> UNKNOWN_ERROR | Some v \<Rightarrow> py_str v)),
         updated_time := t\<rparr>"
proof -
  have res: "batch_upload_records outcome recs = Some body"
    using assms(1,2) by (simp add: batch_upload_records_def)
  have "\<not> code_is_zero body"
    using assms(4,5) by (auto simp: code_is_zero_def split: option.splits jval.splits)
  then have "\<not> upload_ok (batch_upload_records outcome recs)"
    by (simp add: res upload_ok_def)
  moreover have "error_msg (batch_upload_records outcome recs)
      = (case body ''msg'' of None \<Rightarrow> UNKNOWN_ERROR | Some v \<Rightarrow> py_str v)"
    using assms(3) by (simp add: res error_msg_def)
  ultimately show ?thesis by (simp add: chunk_row_def failed_row_def)
qed

lemma demo5_pending:
  "get_pending_records demo_db5 None None
     = [pending_row ''a'' ''Ann'' 1, pending_row ''b'' ''Bob'' 2, pending_row ''c'' ''Ann'' 3,
        pending_row ''d'' ''Bob'' 4, pending_row ''e'' ''Ann'' 5]"
  by (simp add: get_pending_records_def demo_db5_def sql_limit_def pending_cond_def
      py_truthy_str_def pending_row_def)

lemma demo5_chunks:
  "partition_chunks 2 [x, y, z, u, v] = [[x, y], [z, u], [v]]"
  by (simp add: partition_chunks_unfold)

lemma demo5_distinct: "distinct (map event_id (calendar_records demo_db5))"
  by (simp add: demo_db5_def pending_row_def)

section \<open>Properties of the time extraction\<close>

lemma parse_timestamp_to_ms_Inr: "\<exists>v. parse_timestamp_to_ms pf td = Inr v"
proof (cases "parse_timestamp_to_ms_try pf td")
  case (Inl e)
  then show ?thesis by (cases e) (simp_all add: parse_timestamp_to_ms_def)
next
  case (Inr r)
  then show ?thesis by (simp add: parse_timestamp_to_ms_def)
qed

lemma same_try: "parse_timestamp_to_ms_try pf td = extract_timestamp_try pf td"
  by (simp add: parse_timestamp_to_ms_try_def extract_timestamp_try_def Let_def split: option.splits)

lemma strptime_2024_11_07: "strptime_ymd (JStr ''2024-11-07'') = Inr (2024, 11, 7)"
  by code_simp

lemma wall_2024_11_07: "wall_seconds (2024, 11, 7) = 1730937600"
  by (simp add: wall_seconds_def ymd2ord_def days_before_year_def days_before_month_def is_leap_def)

lemma date_to_ms_2024_11_07:
  "mktime_local pf 1730937600 = Inr t \<Longrightarrow> date_to_ms pf (JStr ''2024-11-07'') = Inr (Some (t * 1000))"
  by (simp add: date_to_ms_def strptime_2024_11_07 wall_2024_11_07)

lemma py_int_1700000000: "py_int (JStr ''1700000000'') = Inr 1700000000"
  by (simp add: py_int_str_def int_strip_def int_isspace_def is_digit_def digit_val_def)

lemma timestamp_key:
  "td ''timestamp'' = Some v \<Longrightarrow> py_int v = Inr n \<Longrightarrow>
   extract_timestamp pf td = Inr (Some (n * 1000)) \<and> parse_timestamp_to_ms pf td = Inr (Some (n * 1000))"
  by (simp add: extract_timestamp_def parse_timestamp_to_ms_def same_try extract_timestamp_try_def)

lemma date_key:
  "td ''timestamp'' = None \<Longrightarrow> td ''date'' = Some v \<Longrightarrow> date_to_ms pf v = Inr r \<Longrightarrow>
   extract_timestamp pf td = Inr r \<and> parse_timestamp_to_ms pf td = Inr r"
  by (simp add: extract_timestamp_def parse_timestamp_to_ms_def same_try extract_timestamp_try_def)

lemma neither_key:
  "td ''timestamp'' = None \<Longrightarrow> td ''date'' = None \<Longrightarrow>
   extract_timestamp pf td = Inr None \<and> parse_timestamp_to_ms pf td = Inr None"
  by (simp add: extract_timestamp_def parse_timestamp_to_ms_def same_try extract_timestamp_try_def)

lemma failing_try:
  "extract_timestamp_try pf td = Inl e \<Longrightarrow>
   extract_timestamp pf td = Inr None \<and> parse_timestamp_to_ms pf td = Inr None"
  by (cases e) (simp_all add: extract_timestamp_def parse_timestamp_to_ms_def same_try)

section \<open>Properties of fetching and loading\<close>

lemma upsert_rows:
  assumes "r \<in> set (calendar_records (snd (add_or_update_record pf now d e p f)))"
  shows "(\<exists>r0 \<in> set (calendar_records d). event_id r0 = event_id r \<and> summary r0 = summary r)
     \<or> (ev_event_id e = Some (event_id r) \<and> summary r = Some (get_str (ev_summary e) ''''))"
proof -
  obtain s where s: "extract_timestamp pf (get_dict (ev_start_time e)) = Inr s"
    using extract_timestamp_Inr by blast
  obtain t where t: "extract_timestamp pf (get_dict (ev_end_time e)) = Inr t"
    using extract_timestamp_Inr by blast
  show ?thesis
    using assms
    by (auto simp: add_or_update_record_def s t Let_def update_where_def
        split: option.splits if_splits)
qed

lemma load_events_skips_cancelled:
  "load_events pf clock p f events st
     = load_events pf clock p f (filter (\<lambda>e. ev_status e \<noteq> Some ''cancelled'') events) st"
proof (induction events arbitrary: st)
  case Nil
  then show ?case by simp
next
  case (Cons e events)
  obtain d tick added where st: "st = (d, tick, added)" by (cases st) auto
  show ?case
    unfolding st using Cons.IH by (simp split: prod.splits)
qed

lemma from_row_or_event_mono:
  "from_row_or_event d0 events r \<Longrightarrow> set events \<subseteq> set events' \<Longrightarrow> from_row_or_event d0 events' r"
  unfolding from_row_or_event_def by blast

lemma load_events_rows:
  "r \<in> set (calendar_records (fst (load_events pf clock p f events (d, tick, added)))) \<Longrightarrow>
   from_row_or_event d events r"
proof (induction events arbitrary: d tick added)
  case Nil
  then show ?case by (auto simp: from_row_or_event_def)
next
  case (Cons e events)
  show ?case
  proof (cases "ev_status e = Some ''cancelled''")
    case True
    with Cons.prems have "r \<in> set (calendar_records (fst (load_events pf clock p f events (d, tick, added))))"
      by simp
    from Cons.IH[OF this] show ?thesis
      by (rule from_row_or_event_mono) auto
  next
    case False
    obtain ok d' where up: "add_or_update_record pf (clock tick) d e p f = (ok, d')"
      by (cases "add_or_update_record pf (clock tick) d e p f") auto
    with Cons.prems False
    have "r \<in> set (calendar_records (fst (load_events pf clock p f events
              (d', Suc tick, if ok then Suc added else added))))"
      by simp
    from Cons.IH[OF this] have mid: "from_row_or_event d' events r" .
    show ?thesis
      using mid
      unfolding from_row_or_event_def
    proof (elim disjE bexE conjE)
      fix r0 assume r0: "r0 \<in> set (calendar_records d')" "event_id r0 = event_id r" "summary r0 = summary r"
      have "r0 \<in> set (calendar_records (snd (add_or_update_record pf (clock tick) d e p f)))"
        using r0(1) up by simp
      from upsert_rows[OF this] r0(2,3) False
      show "(\<exists>r0 \<in> set (calendar_records d). event_id r0 = event_id r \<and> summary r0 = summary r)
         \<or> (\<exists>e' \<in> set (e # events). ev_status e' \<noteq> Some ''cancelled'' \<and> ev_event_id e' = Some (event_id r)
               \<and> summary r = Some (get_str (ev_summary e') ''''))"
        by auto
    next
      fix e' assume "e' \<in> set events" "ev_status e' \<noteq> Some ''cancelled''"
        "ev_event_id e' = Some (event_id r)" "summary r = Some (get_str (ev_summary e') '''')"
      then show "(\<exists>r0 \<in> set (calendar_records d). event_id r0 = event_id r \<and> summary r0 = summary r)
         \<or> (\<exists>e' \<in> set (e # events). ev_status e' \<noteq> Some ''cancelled'' \<and> ev_event_id e' = Some (event_id r)
               \<and> summary r = Some (get_str (ev_summary e') ''''))"
        by auto
    qed
  qed
qed

lemma filter_events_items:
  "filter_events fs raw = Inr items \<Longrightarrow> e \<in> set items \<Longrightarrow>
   e \<in> set raw \<and> ev_status e \<noteq> Some ''cancelled'' \<and> py_strip (get_str (ev_summary e) '''') \<noteq> []"
proof (induction raw arbitrary: items)
  case Nil
  then show ?case by simp
next
  case (Cons x raw)
  then show ?case
    by (auto split: if_splits sum.splits)
qed

lemma from_row_or_event_same:
  "from_row_or_event d0 events r0 \<Longrightarrow> event_id r0 = event_id r \<Longrightarrow> summary r0 = summary r \<Longrightarrow>
   from_row_or_event d0 events r"
  unfolding from_row_or_event_def by auto

lemma file_events_Cons:
  "file_events ((path, content) # files)
     = (case content of None \<Rightarrow> [] | Some events \<Rightarrow> events) @ file_events files"
  by (simp add: file_events_def)

lemma load_files_rows:
  "r \<in> set (calendar_records (fst (load_calendar_records pf clock person_of files (d, tick, added)))) \<Longrightarrow>
   from_row_or_event d (file_events files) r"
proof (induction files arbitrary: d tick added)
  case Nil
  then show ?case by (auto simp: from_row_or_event_def)
next
  case (Cons fl files)
  obtain path content where fl: "fl = (path, content)" by (cases fl) auto
  show ?case
  proof (cases content)
    case None
    with Cons.prems fl
    have "r \<in> set (calendar_records (fst (load_calendar_records pf clock person_of files (d, tick, added))))"
      by simp
    from Cons.IH[OF this] show ?thesis
      by (simp add: fl file_events_Cons None)
  next
    case (Some events)
    obtain d1 t1 a1 where st: "load_events pf clock (person_of path) path events (d, tick, added) = (d1, t1, a1)"
      by (cases "load_events pf clock (person_of path) path events (d, tick, added)") auto
    with Cons.prems fl Some
    have "r \<in> set (calendar_records (fst (load_calendar_records pf clock person_of files (d1, t1, a1))))"
      by simp
    from Cons.IH[OF this] have mid: "from_row_or_event d1 (file_events files) r" .
    have d1: "from_row_or_event d events r0" if "r0 \<in> set (calendar_records d1)" for r0
      using load_events_rows[of r0 pf clock "person_of path" path events d tick added] that st by simp
    have "from_row_or_event d (events @ file_events files) r"
      using mid unfolding from_row_or_event_def[of d1]
    proof (elim disjE bexE conjE)
      fix r0 assume r0: "r0 \<in> set (calendar_records d1)" "event_id r0 = event_id r" "summary r0 = summary r"
      have "from_row_or_event d events r" using d1[OF r0(1)] r0(2,3) by (rule from_row_or_event_same)
      then show ?thesis by (rule from_row_or_event_mono) auto
    next
      fix e assume "e \<in> set (file_events files)" "ev_status e \<noteq> Some ''cancelled''"
        "ev_event_id e = Some (event_id r)" "summary r = Some (get_str (ev_summary e) '''')"
      then show ?thesis unfolding from_row_or_event_def by auto
    qed
    then show ?thesis by (simp add: fl file_events_Cons Some)
  qed
qed

lemma demo_filter:
  "filter_events 0 [cancelled_event, blank_event, demo_event] = Inr [demo_event]"
proof -
  have b: "py_strip ''   '' = []" by (simp add: py_strip_def py_isspace_def)
  have s: "py_strip ''Standup'' \<noteq> []" by (simp add: py_strip_def py_isspace_def)
  show ?thesis
    by (simp add: cancelled_event_def blank_event_def demo_event_def get_str_def get_dict_def b s
        py_int_str_def int_strip_def int_isspace_def is_digit_def digit_val_def)
qed

lemma get_calendar_events_admitted:
  assumes "get_calendar_events fs response = Some items"
  shows "list_all admitted items"
proof -
  obtain raw where "filter_events fs raw = Inr items"
    using assms by (auto simp: get_calendar_events_def split: option.splits sum.splits)
  then show ?thesis
    using filter_events_items by (auto simp: list_all_iff admitted_def)
qed

lemma fetched_only_write_file:
  "fetched_only dir \<Longrightarrow> list_all admitted items \<Longrightarrow> fetched_only (write_file p items dir)"
  by (auto simp: fetched_only_def write_file_def list_all_iff)

lemma fetched_only_save:
  "fetched_only dir \<Longrightarrow> fetched_only (save_calendar_results fs calendar_list dir)"
proof (induction calendar_list arbitrary: dir)
  case Nil
  then show ?case by simp
next
  case (Cons c calendar_list)
  obtain p response where c: "c = (p, response)" by (cases c) auto
  show ?case
  proof (cases "get_calendar_events fs response")
    case None
    then show ?thesis using Cons by (simp add: c)
  next
    case (Some items)
    have "fetched_only (write_file p items dir)"
      using Cons.prems get_calendar_events_admitted[OF Some] by (rule fetched_only_write_file)
    from Cons.IH[OF this] show ?thesis by (simp add: c Some)
  qed
qed

lemma fetched_only_fetch:
  "fetched_only dir \<Longrightarrow> fetched_only (snd (fetch_calendar_data fs calendars dir))"
  by (auto simp: fetch_calendar_data_def fetched_only_save split: option.splits)

lemma fetched_only_events:
  "fetched_only dir \<Longrightarrow> e \<in> set (file_events dir) \<Longrightarrow> admitted e"
  by (auto simp: fetched_only_def file_events_def list_all_iff split: option.splits)

lemma ingest_cycle_dir:
  "fst (ingest_cycle pf clock person_of fs calendars (dir, d)) = snd (fetch_calendar_data fs calendars dir)"
  by (simp add: ingest_cycle_def split: prod.splits)

lemma ingest_cycle_rows:
  assumes "fetched_only dir"
    and "r \<in> set (calendar_records (snd (ingest_cycle pf clock person_of fs calendars (dir, d))))"
  shows "(\<exists>r0 \<in> set (calendar_records d). event_id r0 = event_id r \<and> summary r0 = summary r)
     \<or> (\<exists>e \<in> set (file_events (fst (ingest_cycle pf clock person_of fs calendars (dir, d)))).
           admitted e \<and> ev_event_id e = Some (event_id r)
           \<and> summary r = Some (get_str (ev_summary e) ''''))"
proof -
  obtain ok dir' where f: "fetch_calendar_data fs calendars dir = (ok, dir')"
    by (cases "fetch_calendar_data fs calendars dir") auto
  have fo: "fetched_only dir'" using fetched_only_fetch[OF assms(1), of fs calendars] f by simp
  have dir': "fst (ingest_cycle pf clock person_of fs calendars (dir, d)) = dir'"
    by (simp add: ingest_cycle_dir f)
  show ?thesis
  proof (cases ok)
    case False
    then have "snd (ingest_cycle pf clock person_of fs calendars (dir, d)) = d"
      by (simp add: ingest_cycle_def f)
    with assms(2) show ?thesis by auto
  next
    case True
    then have "snd (ingest_cycle pf clock person_of fs calendars (dir, d))
        = fst (load_calendar_records pf clock person_of dir' (d, 0, 0))"
      by (simp add: ingest_cycle_def f)
    with assms(2) have "from_row_or_event d (file_events dir') r"
      using load_files_rows by simp
    then show ?thesis
      unfolding dir' from_row_or_event_def using fetched_only_events[OF fo] by blast
  qed
qed

lemma ingest_cycle_titled:
  assumes "fetched_only dir" and "titled d"
  shows "titled (snd (ingest_cycle pf clock person_of fs calendars (dir, d)))"
  unfolding titled_def list_all_iff
proof
  fix r
  assume r: "r \<in> set (calendar_records (snd (ingest_cycle pf clock person_of fs calendars (dir, d))))"
  from ingest_cycle_rows[OF assms(1) r]
  show "case summary r of None \<Rightarrow> False | Some s \<Rightarrow> py_strip s \<noteq> []"
  proof (elim disjE bexE conjE)
    fix r0 assume "r0 \<in> set (calendar_records d)" "summary r0 = summary r"
    then show ?thesis using assms(2) by (auto simp: titled_def list_all_iff)
  next
    fix e assume "admitted e" "summary r = Some (get_str (ev_summary e) '''')"
    then show ?thesis by (simp add: admitted_def)
  qed
qed

lemma ingest_cycles_invariant:
  "fetched_only (fst st) \<Longrightarrow> titled (snd st) \<Longrightarrow>
   fetched_only (fst (ingest_cycles pf person_of cycles st)) \<and> titled (snd (ingest_cycles pf person_of cycles st))"
proof (induction cycles arbitrary: st)
  case Nil
  then show ?case by simp
next
  case (Cons c cycles)
  obtain clock fs calendars where c: "c = (clock, fs, calendars)" by (cases c) auto
  obtain dir d where st: "st = (dir, d)" by (cases st) auto
  have a: "fetched_only (fst (ingest_cycle pf clock person_of fs calendars (dir, d)))"
    using Cons.prems(1) by (simp add: ingest_cycle_dir fetched_only_fetch st)
  have b: "titled (snd (ingest_cycle pf clock person_of fs calendars (dir, d)))"
    using Cons.prems by (simp add: ingest_cycle_titled st)
  from Cons.IH[OF a b] show ?case by (simp add: c st)
qed

lemma get_calendar_events_drops:
  assumes "get_calendar_events fs (Some raw) = Some items"
    and "ev_status e = Some ''cancelled'' \<or> py_strip (get_str (ev_summary e) '''') = []"
  shows "e \<notin> set items"
proof -
  have "filter_events fs raw = Inr items"
    using assms(1) by (auto simp: get_calendar_events_def split: sum.splits)
  from filter_events_items[OF this] assms(2) show ?thesis by blast
qed

section \<open>Claims about the record store\<close>

text \<open>
  Claim C2 (change detection), where the code differs: a re-ingested event whose
  fingerprint differs from the stored one, and whose start time in milliseconds does not
  fit the 64 bits of the column, leaves the \<open>Uploaded\<close> row as it is and returns
  \<open>False\<close>.
\<close>

theorem upsert_unbindable_time_counterexample:
  "select_by_event_id demo_db ''e1'' = Some demo_row
   \<and> upload_status demo_row = Uploaded
   \<and> ev_event_id huge_event = Some ''e1''
   \<and> record_hash demo_row \<noteq> Some (generate_record_hash demo_platform huge_event)
   \<and> add_or_update_record demo_platform 20 demo_db huge_event ''Ann'' ''Ann.txt'' = (False, demo_db)"
proof -
  have h1: "ev_event_id huge_event = Some ''e1''"
    by (simp add: huge_event_def demo_event_def)
  have h3: "select_by_event_id demo_db ''e1'' = Some demo_row"
    by (simp add: select_by_event_id_def demo_db_def demo_row_def)
  have h4: "upload_status demo_row = Uploaded" by (simp add: demo_row_def)
  have h5: "record_hash demo_row \<noteq> Some (generate_record_hash demo_platform huge_event)"
    by (simp add: demo_row_def generate_record_hash_def demo_platform_def utc_platform_def
        huge_event_def demo_event_def get_str_def)
  have s: "extract_timestamp demo_platform (get_dict (ev_start_time huge_event))
      = Inr (Some 9223372036854776000)"
    using demo_huge_ts by (simp add: huge_event_def get_dict_def)
  have nb: "\<not> bindable_times demo_platform huge_event"
    by (simp add: bindable_times_def s sqlite_int_ok_def)
  have "add_or_update_record demo_platform 20 demo_db huge_event ''Ann'' ''Ann.txt'' = (False, demo_db)"
    using h1 _ nb by (rule upsert_unbindable) simp
  with h1 h3 h4 h5 show ?thesis by simp
qed

text \<open>
  Claim C2, amended.  For a stored row with status \<open>Uploaded\<close> and a re-ingested event
  of the same \<open>event_id\<close>: when the fingerprint of the event differs from the stored one
  and both resolved times fit a signed integer of 64 bits, \<open>add_or_update_record\<close>
  returns \<open>True\<close>, overwrites summary, start and end time, file reference and
  fingerprint, sets the status to \<open>Pending\<close> and clears \<open>upload_time\<close> and
  \<open>upload_result\<close> (person and creation time stay); when the fingerprint differs and a
  time does not fit, the statement fails, the call returns \<open>False\<close> and the store is the
  same; when the fingerprint is the stored one, it returns \<open>False\<close>, the store is the
  same and the row is still \<open>Uploaded\<close>.
\<close>

theorem upsert_change_detection:
  assumes "ev_event_id ev = Some eid" and "eid \<noteq> []"
    and "select_by_event_id d eid = Some r" and "upload_status r = Uploaded"
  shows "(record_hash r \<noteq> Some (generate_record_hash pf ev) \<and> bindable_times pf ev \<longrightarrow>
            fst (add_or_update_record pf now d ev p f) = True \<and>
            (\<exists>r'. select_by_event_id (snd (add_or_update_record pf now d ev p f)) eid = Some r' \<and>
               upload_status r' = Pending \<and> upload_time r' = None \<and> upload_result r' = None \<and>
               summary r' = Some (get_str (ev_summary ev) '''') \<and>
               Inr (start_time r') = extract_timestamp pf (get_dict (ev_start_time ev)) \<and>
               Inr (end_time r') = extract_timestamp pf (get_dict (ev_end_time ev)) \<and>
               calendar_file r' = Some f \<and>
               record_hash r' = Some (generate_record_hash pf ev) \<and>
               updated_time r' = now \<and>
               event_id r' = eid \<and> person_name r' = person_name r \<and>
               created_time r' = created_time r))
       \<and> (record_hash r \<noteq> Some (generate_record_hash pf ev) \<and> \<not> bindable_times pf ev \<longrightarrow>
            add_or_update_record pf now d ev p f = (False, d))
       \<and> (record_hash r = Some (generate_record_hash pf ev) \<longrightarrow>
            add_or_update_record pf now d ev p f = (False, d) \<and>
            (\<exists>r'. select_by_event_id (snd (add_or_update_record pf now d ev p f)) eid = Some r' \<and>
               upload_status r' = Uploaded))
       \<and> (bindable_times pf ev \<longleftrightarrow>
            (\<exists>s e. extract_timestamp pf (get_dict (ev_start_time ev)) = Inr s
               \<and> extract_timestamp pf (get_dict (ev_end_time ev)) = Inr e
               \<and> (\<forall>n. s = Some n \<longrightarrow> - (2 ^ 63) \<le> n \<and> n < 2 ^ 63)
               \<and> (\<forall>n. e = Some n \<longrightarrow> - (2 ^ 63) \<le> n \<and> n < 2 ^ 63)))"
proof (intro conjI impI)
  assume h: "record_hash r \<noteq> Some (generate_record_hash pf ev) \<and> bindable_times pf ev"
  obtain s where s: "extract_timestamp pf (get_dict (ev_start_time ev)) = Inr s"
    using extract_timestamp_Inr by blast
  obtain e where e: "extract_timestamp pf (get_dict (ev_end_time ev)) = Inr e"
    using extract_timestamp_Inr by blast
  have ok: "sqlite_int_ok s" "sqlite_int_ok e"
    using h by (simp_all add: bindable_times_def s e)
  have h': "record_hash r \<noteq> Some (generate_record_hash pf ev)" using h by simp
  note eq = upsert_changed[OF assms(1,2,3) h' s e ok, of now p f]
  have eid: "event_id r = eid" using select_SomeD[OF assms(3)] by simp
  show "fst (add_or_update_record pf now d ev p f) = True" by (simp add: eq)
  show "\<exists>r'. select_by_event_id (snd (add_or_update_record pf now d ev p f)) eid = Some r' \<and>
               upload_status r' = Pending \<and> upload_time r' = None \<and> upload_result r' = None \<and>
               summary r' = Some (get_str (ev_summary ev) '''') \<and>
               Inr (start_time r') = extract_timestamp pf (get_dict (ev_start_time ev)) \<and>
               Inr (end_time r') = extract_timestamp pf (get_dict (ev_end_time ev)) \<and>
               calendar_file r' = Some f \<and>
               record_hash r' = Some (generate_record_hash pf ev) \<and>
               updated_time r' = now \<and>
               event_id r' = eid \<and> person_name r' = person_name r \<and>
               created_time r' = created_time r"
    by (simp add: eq select_update_where assms(3) s e eid)
next
  assume "record_hash r \<noteq> Some (generate_record_hash pf ev) \<and> \<not> bindable_times pf ev"
  then show "add_or_update_record pf now d ev p f = (False, d)"
    using upsert_unbindable[OF assms(1,2)] by blast
next
  assume h: "record_hash r = Some (generate_record_hash pf ev)"
  note eq = upsert_unchanged[OF assms(1,2,3) h, of now p f]
  show "add_or_update_record pf now d ev p f = (False, d)" by (rule eq)
  show "\<exists>r'. select_by_event_id (snd (add_or_update_record pf now d ev p f)) eid = Some r' \<and>
               upload_status r' = Uploaded"
    using assms(3,4) by (simp add: eq)
next
  obtain s where s: "extract_timestamp pf (get_dict (ev_start_time ev)) = Inr s"
    using extract_timestamp_Inr by blast
  obtain e where e: "extract_timestamp pf (get_dict (ev_end_time ev)) = Inr e"
    using extract_timestamp_Inr by blast
  show "bindable_times pf ev \<longleftrightarrow>
            (\<exists>s e. extract_timestamp pf (get_dict (ev_start_time ev)) = Inr s
               \<and> extract_timestamp pf (get_dict (ev_end_time ev)) = Inr e
               \<and> (\<forall>n. s = Some n \<longrightarrow> - (2 ^ 63) \<le> n \<and> n < 2 ^ 63)
               \<and> (\<forall>n. e = Some n \<longrightarrow> - (2 ^ 63) \<le> n \<and> n < 2 ^ 63))"
    by (cases s; cases e) (auto simp: bindable_times_def s e sqlite_int_ok_def)
qed

theorem upsert_change_detection_witness:
  "fst (add_or_update_record demo_platform 20 demo_db demo_event ''Ann'' ''Ann2.txt'') = True \<and>
   (\<exists>r'. select_by_event_id
            (snd (add_or_update_record demo_platform 20 demo_db demo_event ''Ann'' ''Ann2.txt'')) ''e1''
             = Some r' \<and>
          upload_status r' = Pending \<and> upload_time r' = None \<and> upload_result r' = None \<and>
          summary r' = Some ''Standup'' \<and> start_time r' = Some 1700000000000 \<and>
          calendar_file r' = Some ''Ann2.txt'' \<and> updated_time r' = 20 \<and> created_time r' = 1)"
proof -
  have h1: "ev_event_id demo_event = Some ''e1''" by (simp add: demo_event_def)
  have h2: "''e1'' \<noteq> []" by simp
  have h3: "select_by_event_id demo_db ''e1'' = Some demo_row"
    by (simp add: select_by_event_id_def demo_db_def demo_row_def)
  have h4: "upload_status demo_row = Uploaded" by (simp add: demo_row_def)
  have h5: "record_hash demo_row \<noteq> Some (generate_record_hash demo_platform demo_event)"
    by (simp add: demo_row_def generate_record_hash_def demo_platform_def utc_platform_def
        demo_event_def get_str_def)
  have s: "extract_timestamp demo_platform (get_dict (ev_start_time demo_event)) = Inr (Some 1700000000000)"
    using demo_ts by (simp add: demo_event_def get_dict_def)
  have e: "extract_timestamp demo_platform (get_dict (ev_end_time demo_event)) = Inr None"
    using demo_no_time by (simp add: demo_event_def get_dict_def)
  have b: "bindable_times demo_platform demo_event"
    by (simp add: bindable_times_def s e sqlite_int_ok_def)
  from upsert_change_detection[OF h1 h2 h3 h4, of demo_platform 20 "''Ann''" "''Ann2.txt''"] h5 s b
  show ?thesis
    by (auto simp: demo_event_def get_str_def demo_row_def)
qed

text \<open>
  Claim C3 (idempotence).  When the store holds a row of the event's \<open>event_id\<close> whose
  fingerprint is the event's, \<open>add_or_update_record\<close> returns \<open>False\<close> (unchanged) and
  the store, hence the whole row with its status and its times, is what it was; and a
  second call with the same event, right after any first call, is such a call.
\<close>

theorem upsert_idempotent:
  "(ev_event_id ev = Some eid \<and> eid \<noteq> [] \<and> select_by_event_id d eid = Some r \<and>
      record_hash r = Some (generate_record_hash pf ev)
      \<longrightarrow> add_or_update_record pf now d ev p f = (False, d) \<and>
          select_by_event_id (snd (add_or_update_record pf now d ev p f)) eid = Some r)
   \<and> add_or_update_record pf t2 (snd (add_or_update_record pf t1 d ev p f)) ev p2 f2
        = (False, snd (add_or_update_record pf t1 d ev p f))"
proof (intro conjI impI)
  assume a: "ev_event_id ev = Some eid \<and> eid \<noteq> [] \<and> select_by_event_id d eid = Some r \<and>
      record_hash r = Some (generate_record_hash pf ev)"
  then have eq: "add_or_update_record pf now d ev p f = (False, d)"
    using upsert_unchanged by blast
  show "add_or_update_record pf now d ev p f = (False, d)" by (rule eq)
  show "select_by_event_id (snd (add_or_update_record pf now d ev p f)) eid = Some r"
    using a by (simp add: eq)
next
  show "add_or_update_record pf t2 (snd (add_or_update_record pf t1 d ev p f)) ev p2 f2
        = (False, snd (add_or_update_record pf t1 d ev p f))"
    by (rule upsert_twice)
qed

theorem upsert_idempotent_witness:
  "add_or_update_record demo_platform 7 empty_db demo_event ''Ann'' ''Ann.txt''
     = (True, \<lparr>calendar_records =
          [\<lparr>event_id = ''e1'', person_name = ''Ann'', summary = Some ''Standup'',
            start_time = Some 1700000000000, end_time = None, calendar_file = Some ''Ann.txt'',
            record_hash = Some ''Standup'', upload_status = Pending, upload_time = None,
            upload_result = None, created_time = 7, updated_time = 7\<rparr>],
          upload_logs = []\<rparr>)
   \<and> add_or_update_record demo_platform 9
        (snd (add_or_update_record demo_platform 7 empty_db demo_event ''Ann'' ''Ann.txt''))
        demo_event ''Ann'' ''Ann.txt''
     = (False, snd (add_or_update_record demo_platform 7 empty_db demo_event ''Ann'' ''Ann.txt''))"
proof -
  have s: "extract_timestamp demo_platform (get_dict (ev_start_time demo_event)) = Inr (Some 1700000000000)"
    using demo_ts by (simp add: demo_event_def get_dict_def)
  have e: "extract_timestamp demo_platform (get_dict (ev_end_time demo_event)) = Inr None"
    using demo_no_time by (simp add: demo_event_def get_dict_def)
  have first: "add_or_update_record demo_platform 7 empty_db demo_event ''Ann'' ''Ann.txt''
     = (True, \<lparr>calendar_records =
          [\<lparr>event_id = ''e1'', person_name = ''Ann'', summary = Some ''Standup'',
            start_time = Some 1700000000000, end_time = None, calendar_file = Some ''Ann.txt'',
            record_hash = Some ''Standup'', upload_status = Pending, upload_time = None,
            upload_result = None, created_time = 7, updated_time = 7\<rparr>],
          upload_logs = []\<rparr>)"
  proof -
    have h1: "ev_event_id demo_event = Some ''e1''" by (simp add: demo_event_def)
    have g: "get_str (ev_summary demo_event) [] = ''Standup''"
      by (simp add: demo_event_def get_str_def)
    have m: "md5_json demo_platform k = kf_summary k" for k
      by (simp add: demo_platform_def utc_platform_def)
    show ?thesis
      by (simp add: add_or_update_record_def h1 s e Let_def select_by_event_id_def empty_db_def
          generate_record_hash_def g m sqlite_int_ok_def)
  qed
  from first upsert_idempotent[of demo_event "''e1''" empty_db demo_row demo_platform 0 "''Ann''"
      "''Ann.txt''" 9 7 "''Ann''" "''Ann.txt''"]
  show ?thesis by simp
qed

text \<open>
  Claim C9 (\<open>mark_as_uploaded\<close> has no status precondition).  When a row with the
  \<open>event_id\<close> exists, whatever its status, the call returns \<open>True\<close> and the row is the
  old one with status \<open>Uploaded\<close> and with \<open>upload_time\<close>, \<open>upload_result\<close> and
  \<open>updated_time\<close> overwritten by the values of this call; the result is \<open>False\<close> exactly
  when no row has the \<open>event_id\<close>, and then the store is the same.
\<close>

theorem mark_as_uploaded_any_status:
  "(select_by_event_id d eid = Some r \<longrightarrow>
      fst (mark_as_uploaded now d eid res) = True \<and>
      select_by_event_id (snd (mark_as_uploaded now d eid res)) eid
        = Some (r\<lparr>upload_status := Uploaded, upload_time := Some now,
                   upload_result := Some res, updated_time := now\<rparr>))
   \<and> (fst (mark_as_uploaded now d eid res) = False
        \<longleftrightarrow> (\<forall>x \<in> set (calendar_records d). event_id x \<noteq> eid))
   \<and> (fst (mark_as_uploaded now d eid res) = False \<longrightarrow> snd (mark_as_uploaded now d eid res) = d)"
proof (intro conjI impI)
  assume a: "select_by_event_id d eid = Some r"
  then have "r \<in> set (calendar_records d)" "event_id r = eid"
    using select_SomeD by blast+
  then have pos: "rowcount_where (\<lambda>x. event_id x = eid) d > 0"
    by (auto simp: rowcount_where_def filter_empty_conv)
  show "fst (mark_as_uploaded now d eid res) = True"
    using pos by (simp add: mark_as_uploaded_def Let_def)
  show "select_by_event_id (snd (mark_as_uploaded now d eid res)) eid
        = Some (r\<lparr>upload_status := Uploaded, upload_time := Some now,
                   upload_result := Some res, updated_time := now\<rparr>)"
    using pos a by (simp add: mark_as_uploaded_def Let_def select_update_where)
next
  show "fst (mark_as_uploaded now d eid res) = False
        \<longleftrightarrow> (\<forall>x \<in> set (calendar_records d). event_id x \<noteq> eid)"
    by (auto simp: mark_as_uploaded_def Let_def rowcount_where_def filter_empty_conv)
next
  assume "fst (mark_as_uploaded now d eid res) = False"
  then show "snd (mark_as_uploaded now d eid res) = d"
    by (simp add: mark_as_uploaded_def Let_def split: if_splits)
qed

theorem mark_as_uploaded_any_status_witness:
  "fst (mark_as_uploaded 30 demo_db ''e1'' ''again'') = True \<and>
   select_by_event_id (snd (mark_as_uploaded 30 demo_db ''e1'' ''again'')) ''e1''
     = Some (demo_row\<lparr>upload_status := Uploaded, upload_time := Some 30,
                      upload_result := Some ''again'', updated_time := 30\<rparr>) \<and>
   upload_status demo_row = Uploaded \<and>
   fst (mark_as_uploaded 30 demo_db ''zz'' ''again'') = False"
proof -
  have h: "select_by_event_id demo_db ''e1'' = Some demo_row"
    by (simp add: select_by_event_id_def demo_db_def demo_row_def)
  have n: "\<forall>x \<in> set (calendar_records demo_db). event_id x \<noteq> ''zz''"
    by (simp add: demo_db_def demo_row_def)
  from mark_as_uploaded_any_status[of demo_db "''e1''" demo_row 30 "''again''"] h
    mark_as_uploaded_any_status[of demo_db "''zz''" demo_row 30 "''again''"] n
  show ?thesis by (simp add: demo_row_def)
qed

text \<open>
  Claim C10 (rejected input).  When the event has no \<open>event_id\<close> or an empty one,
  \<open>add_or_update_record\<close> returns \<open>False\<close> and both tables are what they were; the same
  \<open>False\<close>, with the same store, is the result for an event whose row exists with the
  event's fingerprint.
\<close>

theorem upsert_rejects_missing_event_id:
  "(ev_event_id ev = None \<or> ev_event_id ev = Some [] \<longrightarrow>
      add_or_update_record pf now d ev p f = (False, d))
   \<and> (ev_event_id ev' = Some eid \<and> eid \<noteq> [] \<and> select_by_event_id d eid = Some r \<and>
        record_hash r = Some (generate_record_hash pf ev')
      \<longrightarrow> add_or_update_record pf now d ev' p f = (False, d))"
  using upsert_no_event_id upsert_unchanged by blast

theorem upsert_rejects_missing_event_id_witness:
  "add_or_update_record demo_platform 40 demo_db (demo_event\<lparr>ev_event_id := None\<rparr>) ''Ann'' ''Ann.txt''
     = (False, demo_db)
   \<and> add_or_update_record demo_platform 40 demo_db (demo_event\<lparr>ev_event_id := Some []\<rparr>) ''Ann'' ''Ann.txt''
     = (False, demo_db)
   \<and> add_or_update_record demo_platform 40 demo_db (demo_event\<lparr>ev_summary := Some ''Old title''\<rparr>)
        ''Ann'' ''Ann.txt''
     = (False, demo_db)"
proof -
  have h3: "select_by_event_id demo_db ''e1'' = Some demo_row"
    by (simp add: select_by_event_id_def demo_db_def demo_row_def)
  have h5: "record_hash demo_row
      = Some (generate_record_hash demo_platform (demo_event\<lparr>ev_summary := Some ''Old title''\<rparr>))"
    by (simp add: demo_row_def generate_record_hash_def demo_platform_def utc_platform_def
        demo_event_def get_str_def)
  from upsert_rejects_missing_event_id[of "demo_event\<lparr>ev_event_id := None\<rparr>" demo_platform 40
      demo_db "''Ann''" "''Ann.txt''" "demo_event\<lparr>ev_summary := Some ''Old title''\<rparr>" "''e1''" demo_row]
    upsert_rejects_missing_event_id[of "demo_event\<lparr>ev_event_id := Some []\<rparr>" demo_platform 40
      demo_db "''Ann''" "''Ann.txt''" "demo_event\<lparr>ev_summary := Some ''Old title''\<rparr>" "''e1''" demo_row]
    h3 h5
  show ?thesis by (simp add: demo_event_def)
qed

section \<open>Claims about the upload run\<close>

text \<open>
  Claim C1 (batches are all or nothing).  With a positive batch size and a store whose
  \<open>event_id\<close>s are unique, one run of \<open>upload_pending_records\<close> cuts the pending
  sequence, in order, into consecutive chunks of at most the batch size (none empty; 120
  records and size 50 give chunks of 50, 50 and 20), makes exactly one transport call per
  chunk, in order, with the records of the chunk, and leaves every row of chunk number
  \<open>m\<close> as the reply \<open>net m\<close> to call \<open>m\<close> decides, whatever the replies to the other
  calls are:
  \<^item> a 200 response whose body has code 0 (or \<^verbatim>\<open>False\<close>, which Python takes for 0):
    the row is \<open>Uploaded\<close> with the one success text;
  \<^item> no token, a broken request, another status code, a body that is no JSON object, or
    an empty object: the row is \<open>Failed\<close> with the text for a network error after the
    prefix \<open>FAILED: \<close>;
  \<^item> a 200 response whose body is not empty and has another code or none: the row is
    \<open>Failed\<close> with, after the prefix, the \<^verbatim>\<open>msg\<close> of the body, or the text for an
    unknown error when the body has no \<^verbatim>\<open>msg\<close>.

  The other columns of the row stay, but for the two times.  Rows that were not pending
  are what they were.
\<close>

theorem upload_run_all_or_nothing:
  assumes "0 < bs" and "distinct (map event_id (calendar_records d))"
  shows "concat (partition_chunks bs (get_pending_records d None None)) = get_pending_records d None None
    \<and> (\<forall>b \<in> set (partition_chunks bs (get_pending_records d None None)). 0 < length b \<and> length b \<le> bs)
    \<and> (length (get_pending_records d None None) = 120 \<and> bs = 50 \<longrightarrow>
          map length (partition_chunks bs (get_pending_records d None None)) = [50, 50, 20])
    \<and> cy_calls (upload_pending_records net clock bs d)
          = map (map to_upload_record) (partition_chunks bs (get_pending_records d None None))
    \<and> (\<forall>m < length (partition_chunks bs (get_pending_records d None None)).
          \<forall>r \<in> set (partition_chunks bs (get_pending_records d None None) ! m).
            \<exists>t r'. select_by_event_id (cy_db (upload_pending_records net clock bs d)) (event_id r) = Some r'
              \<and> (\<forall>body. net m = Response 200 (Some body)
                     \<and> (body ''code'' = Some (JInt 0) \<or> body ''code'' = Some (JBool False))
                    \<longrightarrow> r' = r\<lparr>upload_status := Uploaded, upload_time := Some t,
                                upload_result := Some BATCH_UPLOAD_OK, updated_time := t\<rparr>)
              \<and> ((\<forall>body. net m \<noteq> Response 200 (Some body)) \<or> net m = Response 200 (Some Map.empty)
                    \<longrightarrow> r' = r\<lparr>upload_status := Failed, upload_time := Some t,
                                upload_result := Some (''FAILED: '' @ NETWORK_ERROR), updated_time := t\<rparr>)
              \<and> (\<forall>body. net m = Response 200 (Some body) \<and> body \<noteq> Map.empty
                     \<and> body ''code'' \<noteq> Some (JInt 0) \<and> body ''code'' \<noteq> Some (JBool False)
                    \<longrightarrow> (body ''msg'' = None
                           \<longrightarrow> r' = r\<lparr>upload_status := Failed, upload_time := Some t,
                                      upload_result := Some (''FAILED: '' @ UNKNOWN_ERROR),
                                      updated_time := t\<rparr>)
                       \<and> (\<forall>s. body ''msg'' = Some (JStr s)
                           \<longrightarrow> r' = r\<lparr>upload_status := Failed, upload_time := Some t,
                                      upload_result := Some (''FAILED: '' @ s), updated_time := t\<rparr>)
                       \<and> (\<forall>v. body ''msg'' = Some v
                           \<longrightarrow> r' = r\<lparr>upload_status := Failed, upload_time := Some t,
                                      upload_result := Some (''FAILED: '' @ py_str v),
                                      updated_time := t\<rparr>)))
    \<and> (\<forall>r \<in> set (calendar_records d). upload_status r \<noteq> Pending \<longrightarrow>
          select_by_event_id (cy_db (upload_pending_records net clock bs d)) (event_id r) = Some r)"
proof -
  let ?chunks = "partition_chunks bs (get_pending_records d None None)"
  let ?run = "upload_pending_records net clock bs d"
  have c1: "concat ?chunks = get_pending_records d None None"
    using assms(1) by (rule concat_partition_chunks)
  have c2: "\<forall>b \<in> set ?chunks. 0 < length b \<and> length b \<le> bs"
    using assms(1) length_partition_chunks by blast
  have c3: "length (get_pending_records d None None) = 120 \<and> bs = 50 \<longrightarrow> map length ?chunks = [50, 50, 20]"
    using partition_chunks_120_50 by blast
  have c4: "cy_calls ?run = map (map to_upload_record) ?chunks"
    using assms(1) by (rule upload_run_calls)
  have c6: "\<forall>r \<in> set (calendar_records d). upload_status r \<noteq> Pending \<longrightarrow>
          select_by_event_id (cy_db ?run) (event_id r) = Some r"
    using upload_run_untouched[OF assms(2)] by blast
  have c5: "\<forall>m < length ?chunks. \<forall>r \<in> set (?chunks ! m).
            \<exists>t r'. select_by_event_id (cy_db ?run) (event_id r) = Some r'
              \<and> (\<forall>body. net m = Response 200 (Some body)
                     \<and> (body ''code'' = Some (JInt 0) \<or> body ''code'' = Some (JBool False))
                    \<longrightarrow> r' = r\<lparr>upload_status := Uploaded, upload_time := Some t,
                                upload_result := Some BATCH_UPLOAD_OK, updated_time := t\<rparr>)
              \<and> ((\<forall>body. net m \<noteq> Response 200 (Some body)) \<or> net m = Response 200 (Some Map.empty)
                    \<longrightarrow> r' = r\<lparr>upload_status := Failed, upload_time := Some t,
                                upload_result := Some (''FAILED: '' @ NETWORK_ERROR), updated_time := t\<rparr>)
              \<and> (\<forall>body. net m = Response 200 (Some body) \<and> body \<noteq> Map.empty
                     \<and> body ''code'' \<noteq> Some (JInt 0) \<and> body ''code'' \<noteq> Some (JBool False)
                    \<longrightarrow> (body ''msg'' = None
                           \<longrightarrow> r' = r\<lparr>upload_status := Failed, upload_time := Some t,
                                      upload_result := Some (''FAILED: '' @ UNKNOWN_ERROR),
                                      updated_time := t\<rparr>)
                       \<and> (\<forall>s. body ''msg'' = Some (JStr s)
                           \<longrightarrow> r' = r\<lparr>upload_status := Failed, upload_time := Some t,
                                      upload_result := Some (''FAILED: '' @ s), updated_time := t\<rparr>)
                       \<and> (\<forall>v. body ''msg'' = Some v
                           \<longrightarrow> r' = r\<lparr>upload_status := Failed, upload_time := Some t,
                                      upload_result := Some (''FAILED: '' @ py_str v),
                                      updated_time := t\<rparr>))"
  proof (intro allI impI ballI)
    fix m r
    assume m: "m < length ?chunks" and r: "r \<in> set (?chunks ! m)"
    let ?recs = "map to_upload_record (?chunks ! m)"
    have ne: "?recs \<noteq> []" using r by auto
    from upload_run_row[OF assms m r, of net clock]
    obtain t where t: "select_by_event_id (cy_db ?run) (event_id r)
       = Some (chunk_row (batch_upload_records (net m) ?recs) t r)"
      by blast
    let ?r' = "chunk_row (batch_upload_records (net m) ?recs) t r"
    have ok: "\<forall>body. net m = Response 200 (Some body)
                     \<and> (body ''code'' = Some (JInt 0) \<or> body ''code'' = Some (JBool False))
                    \<longrightarrow> ?r' = r\<lparr>upload_status := Uploaded, upload_time := Some t,
                                upload_result := Some BATCH_UPLOAD_OK, updated_time := t\<rparr>"
      using chunk_row_success[OF ne] by blast
    have nores: "(\<forall>body. net m \<noteq> Response 200 (Some body)) \<or> net m = Response 200 (Some Map.empty)
                    \<longrightarrow> ?r' = r\<lparr>upload_status := Failed, upload_time := Some t,
                                upload_result := Some (''FAILED: '' @ NETWORK_ERROR), updated_time := t\<rparr>"
      using chunk_row_no_result by blast
    have app: "\<forall>body. net m = Response 200 (Some body) \<and> body \<noteq> Map.empty
                     \<and> body ''code'' \<noteq> Some (JInt 0) \<and> body ''code'' \<noteq> Some (JBool False)
                    \<longrightarrow> (body ''msg'' = None
                           \<longrightarrow> ?r' = r\<lparr>upload_status := Failed, upload_time := Some t,
                                      upload_result := Some (''FAILED: '' @ UNKNOWN_ERROR),
                                      updated_time := t\<rparr>)
                       \<and> (\<forall>s. body ''msg'' = Some (JStr s)
                           \<longrightarrow> ?r' = r\<lparr>upload_status := Failed, upload_time := Some t,
                                      upload_result := Some (''FAILED: '' @ s), updated_time := t\<rparr>)
                       \<and> (\<forall>v. body ''msg'' = Some v
                           \<longrightarrow> ?r' = r\<lparr>upload_status := Failed, upload_time := Some t,
                                      upload_result := Some (''FAILED: '' @ py_str v),
                                      updated_time := t\<rparr>)"
    proof (intro allI impI)
      fix body
      assume h: "net m = Response 200 (Some body) \<and> body \<noteq> Map.empty
                     \<and> body ''code'' \<noteq> Some (JInt 0) \<and> body ''code'' \<noteq> Some (JBool False)"
      have eq: "?r' = r\<lparr>upload_status := Failed, upload_time := Some t,
         upload_result := Some (''FAILED: '' @ (case body ''msg'' of None \<Rightarrow> UNKNOWN_ERROR | Some v \<Rightarrow> py_str v)),
         updated_time := t\<rparr>"
        using h by (intro chunk_row_app_error[OF ne]) simp_all
      show "(body ''msg'' = None
                           \<longrightarrow> ?r' = r\<lparr>upload_status := Failed, upload_time := Some t,
                                      upload_result := Some (''FAILED: '' @ UNKNOWN_ERROR),
                                      updated_time := t\<rparr>)
                       \<and> (\<forall>s. body ''msg'' = Some (JStr s)
                           \<longrightarrow> ?r' = r\<lparr>upload_status := Failed, upload_time := Some t,
                                      upload_result := Some (''FAILED: '' @ s), updated_time := t\<rparr>)
                       \<and> (\<forall>v. body ''msg'' = Some v
                           \<longrightarrow> ?r' = r\<lparr>upload_status := Failed, upload_time := Some t,
                                      upload_result := Some (''FAILED: '' @ py_str v),
                                      updated_time := t\<rparr>)"
        unfolding eq by simp
    qed
    from t ok nores app
    show "\<exists>t r'. select_by_event_id (cy_db ?run) (event_id r) = Some r'
              \<and> (\<forall>body. net m = Response 200 (Some body)
                     \<and> (body ''code'' = Some (JInt 0) \<or> body ''code'' = Some (JBool False))
                    \<longrightarrow> r' = r\<lparr>upload_status := Uploaded, upload_time := Some t,
                                upload_result := Some BATCH_UPLOAD_OK, updated_time := t\<rparr>)
              \<and> ((\<forall>body. net m \<noteq> Response 200 (Some body)) \<or> net m = Response 200 (Some Map.empty)
                    \<longrightarrow> r' = r\<lparr>upload_status := Failed, upload_time := Some t,
                                upload_result := Some (''FAILED: '' @ NETWORK_ERROR), updated_time := t\<rparr>)
              \<and> (\<forall>body. net m = Response 200 (Some body) \<and> body \<noteq> Map.empty
                     \<and> body ''code'' \<noteq> Some (JInt 0) \<and> body ''code'' \<noteq> Some (JBool False)
                    \<longrightarrow> (body ''msg'' = None
                           \<longrightarrow> r' = r\<lparr>upload_status := Failed, upload_time := Some t,
                                      upload_result := Some (''FAILED: '' @ UNKNOWN_ERROR),
                                      updated_time := t\<rparr>)
                       \<and> (\<forall>s. body ''msg'' = Some (JStr s)
                           \<longrightarrow> r' = r\<lparr>upload_status := Failed, upload_time := Some t,
                                      upload_result := Some (''FAILED: '' @ s), updated_time := t\<rparr>)
                       \<and> (\<forall>v. body ''msg'' = Some v
                           \<longrightarrow> r' = r\<lparr>upload_status := Failed, upload_time := Some t,
                                      upload_result := Some (''FAILED: '' @ py_str v),
                                      updated_time := t\<rparr>))"
      by (intro exI[of _ t] exI[of _ ?r'] conjI) assumption+
  qed
  show ?thesis
    by (intro conjI) (rule c1, rule c2, rule c3, rule c4, rule c5, rule c6)
qed

theorem upload_run_all_or_nothing_witness:
  "map length (cy_calls (upload_pending_records demo_net3 demo_clock 2 demo_db5)) = [2, 2, 1]
   \<and> (\<exists>t. select_by_event_id (cy_db (upload_pending_records demo_net3 demo_clock 2 demo_db5)) ''a''
         = Some ((pending_row ''a'' ''Ann'' 1)\<lparr>upload_status := Uploaded, upload_time := Some t,
                   upload_result := Some BATCH_UPLOAD_OK, updated_time := t\<rparr>))
   \<and> (\<exists>t. select_by_event_id (cy_db (upload_pending_records demo_net3 demo_clock 2 demo_db5)) ''b''
         = Some ((pending_row ''b'' ''Bob'' 2)\<lparr>upload_status := Uploaded, upload_time := Some t,
                   upload_result := Some BATCH_UPLOAD_OK, updated_time := t\<rparr>))
   \<and> (\<exists>t. select_by_event_id (cy_db (upload_pending_records demo_net3 demo_clock 2 demo_db5)) ''c''
         = Some ((pending_row ''c'' ''Ann'' 3)\<lparr>upload_status := Failed, upload_time := Some t,
                   upload_result := Some ''FAILED: rate limited'', updated_time := t\<rparr>))
   \<and> (\<exists>t. select_by_event_id (cy_db (upload_pending_records demo_net3 demo_clock 2 demo_db5)) ''d''
         = Some ((pending_row ''d'' ''Bob'' 4)\<lparr>upload_status := Failed, upload_time := Some t,
                   upload_result := Some ''FAILED: rate limited'', updated_time := t\<rparr>))
   \<and> (\<exists>t. select_by_event_id (cy_db (upload_pending_records demo_net3 demo_clock 2 demo_db5)) ''e''
         = Some ((pending_row ''e'' ''Ann'' 5)\<lparr>upload_status := Failed, upload_time := Some t,
                   upload_result := Some (''FAILED: '' @ NETWORK_ERROR), updated_time := t\<rparr>))"
proof -
  let ?a = "pending_row ''a'' ''Ann'' 1" and ?b = "pending_row ''b'' ''Bob'' 2"
    and ?c = "pending_row ''c'' ''Ann'' 3" and ?d = "pending_row ''d'' ''Bob'' 4"
    and ?e = "pending_row ''e'' ''Ann'' 5"
  let ?run = "upload_pending_records demo_net3 demo_clock 2 demo_db5"
  let ?chunks = "[[?a, ?b], [?c, ?d], [?e]]"
  let ?ok = "[''code'' \<mapsto> JInt 0, ''msg'' \<mapsto> JStr ''success'']"
  let ?bad = "[''code'' \<mapsto> JInt 99, ''msg'' \<mapsto> JStr ''rate limited'']"
  have two: "(0::nat) < 2" by simp
  note main = upload_run_all_or_nothing[OF two demo5_distinct, of demo_net3 demo_clock]
  note calls0 = main[THEN conjunct2, THEN conjunct2, THEN conjunct2, THEN conjunct1,
      unfolded demo5_pending demo5_chunks]
  note rows0 = main[THEN conjunct2, THEN conjunct2, THEN conjunct2, THEN conjunct2, THEN conjunct1,
      unfolded demo5_pending demo5_chunks, rule_format]
  have calls: "map length (cy_calls ?run) = [2, 2, 1]"
    by (simp add: calls0)
  have ids: "event_id ?a = ''a''" "event_id ?b = ''b''" "event_id ?c = ''c''"
    "event_id ?d = ''d''" "event_id ?e = ''e''"
    by (simp_all add: pending_row_def)
  have n0: "demo_net3 0 = Response 200 (Some ?ok)
      \<and> (?ok ''code'' = Some (JInt 0) \<or> ?ok ''code'' = Some (JBool False))"
    by (simp add: demo_net3_def)
  have n1: "demo_net3 1 = Response 200 (Some ?bad) \<and> ?bad \<noteq> Map.empty
      \<and> ?bad ''code'' \<noteq> Some (JInt 0) \<and> ?bad ''code'' \<noteq> Some (JBool False)"
    by (simp add: demo_net3_def)
  have msg: "?bad ''msg'' = Some (JStr ''rate limited'')" by simp
  have n2: "(\<forall>body. demo_net3 2 \<noteq> Response 200 (Some body)) \<or> demo_net3 2 = Response 200 (Some Map.empty)"
    by (simp add: demo_net3_def)
  have m0: "0 < length ?chunks" and m1: "1 < length ?chunks" and m2: "2 < length ?chunks"
    by simp_all
  have ia: "?a \<in> set (?chunks ! 0)" and ib: "?b \<in> set (?chunks ! 0)"
    and ic: "?c \<in> set (?chunks ! 1)" and idd: "?d \<in> set (?chunks ! 1)"
    and ie: "?e \<in> set (?chunks ! 2)"
    by simp_all
  from rows0[OF m0 ia] obtain ta ra where
    sa: "select_by_event_id (cy_db ?run) (event_id ?a) = Some ra"
    and oa: "\<forall>body. demo_net3 0 = Response 200 (Some body)
            \<and> (body ''code'' = Some (JInt 0) \<or> body ''code'' = Some (JBool False))
          \<longrightarrow> ra = ?a\<lparr>upload_status := Uploaded, upload_time := Some ta,
                   upload_result := Some BATCH_UPLOAD_OK, updated_time := ta\<rparr>"
    by (elim exE conjE)
  have "ra = ?a\<lparr>upload_status := Uploaded, upload_time := Some ta,
                   upload_result := Some BATCH_UPLOAD_OK, updated_time := ta\<rparr>"
    by (rule mp[OF spec[OF oa, where x = "?ok"] n0])
  with sa have a: "\<exists>t. select_by_event_id (cy_db ?run) ''a''
         = Some (?a\<lparr>upload_status := Uploaded, upload_time := Some t,
                   upload_result := Some BATCH_UPLOAD_OK, updated_time := t\<rparr>)"
    unfolding ids by (intro exI[of _ ta]) simp
  from rows0[OF m0 ib] obtain tb rb where
    sb: "select_by_event_id (cy_db ?run) (event_id ?b) = Some rb"
    and ob: "\<forall>body. demo_net3 0 = Response 200 (Some body)
            \<and> (body ''code'' = Some (JInt 0) \<or> body ''code'' = Some (JBool False))
          \<longrightarrow> rb = ?b\<lparr>upload_status := Uploaded, upload_time := Some tb,
                   upload_result := Some BATCH_UPLOAD_OK, updated_time := tb\<rparr>"
    by (elim exE conjE)
  have "rb = ?b\<lparr>upload_status := Uploaded, upload_time := Some tb,
                   upload_result := Some BATCH_UPLOAD_OK, updated_time := tb\<rparr>"
    by (rule mp[OF spec[OF ob, where x = "?ok"] n0])
  with sb have b: "\<exists>t. select_by_event_id (cy_db ?run) ''b''
         = Some (?b\<lparr>upload_status := Uploaded, upload_time := Some t,
                   upload_result := Some BATCH_UPLOAD_OK, updated_time := t\<rparr>)"
    unfolding ids by (intro exI[of _ tb]) simp
  from rows0[OF m1 ic] obtain tc rc where
    sc: "select_by_event_id (cy_db ?run) (event_id ?c) = Some rc"
    and oc: "\<forall>body. demo_net3 1 = Response 200 (Some body) \<and> body \<noteq> Map.empty
            \<and> body ''code'' \<noteq> Some (JInt 0) \<and> body ''code'' \<noteq> Some (JBool False)
          \<longrightarrow> (body ''msg'' = None
                 \<longrightarrow> rc = ?c\<lparr>upload_status := Failed, upload_time := Some tc,
                            upload_result := Some (''FAILED: '' @ UNKNOWN_ERROR),
                            updated_time := tc\<rparr>)
             \<and> (\<forall>s. body ''msg'' = Some (JStr s)
                 \<longrightarrow> rc = ?c\<lparr>upload_status := Failed, upload_time := Some tc,
                            upload_result := Some (''FAILED: '' @ s), updated_time := tc\<rparr>)
             \<and> (\<forall>v. body ''msg'' = Some v
                 \<longrightarrow> rc = ?c\<lparr>upload_status := Failed, upload_time := Some tc,
                            upload_result := Some (''FAILED: '' @ py_str v),
                            updated_time := tc\<rparr>)"
    by (elim exE conjE)
  note pc = mp[OF spec[OF oc, where x = "?bad"] n1, THEN conjunct2, THEN conjunct1]
  have "rc = ?c\<lparr>upload_status := Failed, upload_time := Some tc,
                   upload_result := Some (''FAILED: '' @ ''rate limited''), updated_time := tc\<rparr>"
    by (rule mp[OF spec[OF pc, where x = "''rate limited''"] msg])
  with sc have c: "\<exists>t. select_by_event_id (cy_db ?run) ''c''
         = Some (?c\<lparr>upload_status := Failed, upload_time := Some t,
                   upload_result := Some ''FAILED: rate limited'', updated_time := t\<rparr>)"
    unfolding ids by (intro exI[of _ tc]) simp
  from rows0[OF m1 idd] obtain td rd where
    sd: "select_by_event_id (cy_db ?run) (event_id ?d) = Some rd"
    and od: "\<forall>body. demo_net3 1 = Response 200 (Some body) \<and> body \<noteq> Map.empty
            \<and> body ''code'' \<noteq> Some (JInt 0) \<and> body ''code'' \<noteq> Some (JBool False)
          \<longrightarrow> (body ''msg'' = None
                 \<longrightarrow> rd = ?d\<lparr>upload_status := Failed, upload_time := Some td,
                            upload_result := Some (''FAILED: '' @ UNKNOWN_ERROR),
                            updated_time := td\<rparr>)
             \<and> (\<forall>s. body ''msg'' = Some (JStr s)
                 \<longrightarrow> rd = ?d\<lparr>upload_status := Failed, upload_time := Some td,
                            upload_result := Some (''FAILED: '' @ s), updated_time := td\<rparr>)
             \<and> (\<forall>v. body ''msg'' = Some v
                 \<longrightarrow> rd = ?d\<lparr>upload_status := Failed, upload_time := Some td,
                            upload_result := Some (''FAILED: '' @ py_str v),
                            updated_time := td\<rparr>)"
    by (elim exE conjE)
  note pd = mp[OF spec[OF od, where x = "?bad"] n1, THEN conjunct2, THEN conjunct1]
  have "rd = ?d\<lparr>upload_status := Failed, upload_time := Some td,
                   upload_result := Some (''FAILED: '' @ ''rate limited''), updated_time := td\<rparr>"
    by (rule mp[OF spec[OF pd, where x = "''rate limited''"] msg])
  with sd have d: "\<exists>t. select_by_event_id (cy_db ?run) ''d''
         = Some (?d\<lparr>upload_status := Failed, upload_time := Some t,
                   upload_result := Some ''FAILED: rate limited'', updated_time := t\<rparr>)"
    unfolding ids by (intro exI[of _ td]) simp
  from rows0[OF m2 ie] obtain te re where
    se: "select_by_event_id (cy_db ?run) (event_id ?e) = Some re"
    and oe: "(\<forall>body. demo_net3 2 \<noteq> Response 200 (Some body))
            \<or> demo_net3 2 = Response 200 (Some Map.empty)
          \<longrightarrow> re = ?e\<lparr>upload_status := Failed, upload_time := Some te,
                   upload_result := Some (''FAILED: '' @ NETWORK_ERROR), updated_time := te\<rparr>"
    by (elim exE conjE)
  have "re = ?e\<lparr>upload_status := Failed, upload_time := Some te,
                   upload_result := Some (''FAILED: '' @ NETWORK_ERROR), updated_time := te\<rparr>"
    by (rule mp[OF oe n2])
  with se have e: "\<exists>t. select_by_event_id (cy_db ?run) ''e''
         = Some (?e\<lparr>upload_status := Failed, upload_time := Some t,
                   upload_result := Some (''FAILED: '' @ NETWORK_ERROR), updated_time := t\<rparr>)"
    unfolding ids by (intro exI[of _ te]) simp
  show ?thesis
    by (intro conjI) (rule calls, rule a, rule b, rule c, rule d, rule e)
qed

text \<open>
  Claim C7 (batch log): the code writes no log.  A run of \<open>upload_pending_records\<close>
  leaves the log table as it was, whatever the network does; the run that processes the
  three pending records of the example, in two chunks, leaves the table empty.  The store
  can write the entries: \<open>log_upload_batch\<close>, called with a batch identifier and one
  result, appends the entry (and refuses a result without event id, since the column is
  \<^verbatim>\<open>NOT NULL\<close>); but the scheduler never calls it, and never draws a batch identifier.
\<close>

theorem upload_run_writes_no_log:
  "upload_logs (cy_db (upload_pending_records net clock bs d)) = upload_logs d
   \<and> cy_uploaded (upload_pending_records demo_net demo_clock 2 demo_db3)
     + cy_failed (upload_pending_records demo_net demo_clock 2 demo_db3) = 3
   \<and> length (cy_calls (upload_pending_records demo_net demo_clock 2 demo_db3)) = 2
   \<and> upload_logs (cy_db (upload_pending_records demo_net demo_clock 2 demo_db3)) = []
   \<and> log_upload_batch 9 demo_db3 ''20260101_100000''
        [\<lparr>res_event_id = Some ''a'', res_status = Some ''uploaded'', res_result = Some ''ok'',
          res_error = None\<rparr>]
      = (True, demo_db3\<lparr>upload_logs :=
          [\<lparr>log_batch_id = ''20260101_100000'', log_event_id = Some ''a'',
            log_upload_status = Some ''uploaded'', log_upload_result = Some ''ok'',
            log_upload_time = 9, log_error_message = None\<rparr>]\<rparr>)
   \<and> log_upload_batch 9 demo_db3 ''20260101_100000''
        [\<lparr>res_event_id = None, res_status = Some ''uploaded'', res_result = Some ''ok'',
          res_error = None\<rparr>]
      = (False, demo_db3)"
proof -
  have two: "(0::nat) < 2" by simp
  have e: "upload_logs demo_db3 = []" by (simp add: demo_db3_def)
  have g: "upload_logs (cy_db (upload_pending_records net clock bs d)) = upload_logs d"
    by (simp add: upload_run_logs)
  have n: "cy_uploaded (upload_pending_records demo_net demo_clock 2 demo_db3)
     + cy_failed (upload_pending_records demo_net demo_clock 2 demo_db3) = 3"
    using upload_run_counts[OF two, of demo_net demo_clock demo_db3] by (simp add: demo_pending)
  have k: "length (cy_calls (upload_pending_records demo_net demo_clock 2 demo_db3)) = 2"
    using upload_run_calls[OF two, of demo_net demo_clock demo_db3]
    by (simp add: demo_pending demo_chunks)
  have l: "upload_logs (cy_db (upload_pending_records demo_net demo_clock 2 demo_db3)) = []"
    by (simp add: upload_run_logs e)
  have w: "log_upload_batch 9 demo_db3 ''20260101_100000''
        [\<lparr>res_event_id = Some ''a'', res_status = Some ''uploaded'', res_result = Some ''ok'',
          res_error = None\<rparr>]
      = (True, demo_db3\<lparr>upload_logs :=
          [\<lparr>log_batch_id = ''20260101_100000'', log_event_id = Some ''a'',
            log_upload_status = Some ''uploaded'', log_upload_result = Some ''ok'',
            log_upload_time = 9, log_error_message = None\<rparr>]\<rparr>)"
    by (simp add: log_upload_batch_def e)
  have r: "log_upload_batch 9 demo_db3 ''20260101_100000''
        [\<lparr>res_event_id = None, res_status = Some ''uploaded'', res_result = Some ''ok'',
          res_error = None\<rparr>]
      = (False, demo_db3)"
    by (simp add: log_upload_batch_def)
  show ?thesis
    by (intro conjI) (rule g, rule n, rule k, rule l, rule w, rule r)
qed




section \<open>Claims about the time extraction\<close>

text \<open>
  Claim C5 (time resolution), evaluated on the code.  A value with the timestamp
  \<open>1700000000\<close> resolves to 1700000000000 milliseconds and a value with neither key
  resolves to \<open>None\<close>, on every platform.  The date 2024-11-07 resolves to midnight of
  that day in the local zone of the process: to 1730937600000, midnight UTC, where the
  local zone is UTC, and to 1730908800000, eight hours earlier, where the local zone is
  eight hours east of UTC, also when the value names the zone UTC.
\<close>

theorem time_resolution_local_midnight:
  "extract_timestamp pf [''timestamp'' \<mapsto> JStr ''1700000000''] = Inr (Some 1700000000000)
   \<and> parse_timestamp_to_ms pf [''timestamp'' \<mapsto> JStr ''1700000000''] = Inr (Some 1700000000000)
   \<and> extract_timestamp pf Map.empty = Inr None
   \<and> parse_timestamp_to_ms pf Map.empty = Inr None
   \<and> extract_timestamp (utc_platform h) [''date'' \<mapsto> JStr ''2024-11-07''] = Inr (Some 1730937600000)
   \<and> parse_timestamp_to_ms (utc_platform h) [''date'' \<mapsto> JStr ''2024-11-07''] = Inr (Some 1730937600000)
   \<and> extract_timestamp (utc8_platform h) [''date'' \<mapsto> JStr ''2024-11-07''] = Inr (Some 1730908800000)
   \<and> parse_timestamp_to_ms (utc8_platform h) [''date'' \<mapsto> JStr ''2024-11-07''] = Inr (Some 1730908800000)
   \<and> parse_timestamp_to_ms (utc8_platform h) [''date'' \<mapsto> JStr ''2024-11-07'', ''timezone'' \<mapsto> JStr ''UTC'']
        = Inr (Some 1730908800000)"
proof -
  have ts: "extract_timestamp pf [''timestamp'' \<mapsto> JStr ''1700000000''] = Inr (Some 1700000000000)
      \<and> parse_timestamp_to_ms pf [''timestamp'' \<mapsto> JStr ''1700000000''] = Inr (Some 1700000000000)"
    using timestamp_key[of "[''timestamp'' \<mapsto> JStr ''1700000000'']" "JStr ''1700000000''" 1700000000 pf]
      py_int_1700000000 by simp
  have no: "extract_timestamp pf Map.empty = Inr None \<and> parse_timestamp_to_ms pf Map.empty = Inr None"
    by (rule neither_key) simp_all
  have u: "date_to_ms (utc_platform h) (JStr ''2024-11-07'') = Inr (Some 1730937600000)"
    using date_to_ms_2024_11_07[of "utc_platform h" 1730937600] by (simp add: utc_platform_def fixed_zone_mktime_def)
  have u8: "date_to_ms (utc8_platform h) (JStr ''2024-11-07'') = Inr (Some 1730908800000)"
    using date_to_ms_2024_11_07[of "utc8_platform h" 1730908800] by (simp add: utc8_platform_def fixed_zone_mktime_def)
  have du: "extract_timestamp (utc_platform h) [''date'' \<mapsto> JStr ''2024-11-07''] = Inr (Some 1730937600000)
      \<and> parse_timestamp_to_ms (utc_platform h) [''date'' \<mapsto> JStr ''2024-11-07''] = Inr (Some 1730937600000)"
    by (rule date_key[OF _ _ u]) simp_all
  have du8: "extract_timestamp (utc8_platform h) [''date'' \<mapsto> JStr ''2024-11-07''] = Inr (Some 1730908800000)
      \<and> parse_timestamp_to_ms (utc8_platform h) [''date'' \<mapsto> JStr ''2024-11-07''] = Inr (Some 1730908800000)"
    by (rule date_key[OF _ _ u8]) simp_all
  have tz: "parse_timestamp_to_ms (utc8_platform h) [''date'' \<mapsto> JStr ''2024-11-07'', ''timezone'' \<mapsto> JStr ''UTC'']
        = Inr (Some 1730908800000)"
    using date_key[OF _ _ u8, of "[''date'' \<mapsto> JStr ''2024-11-07'', ''timezone'' \<mapsto> JStr ''UTC'']"]
    by simp
  from ts no du du8 tz show ?thesis by blast
qed

text \<open>
  Claim C8 (time extraction is total).  On every platform and for every dictionary, both
  functions return a value and raise nothing: whenever the body raises (a timestamp that
  is no integer, a date that is not of the form YYYY-MM-DD or is no string, a time the
  platform cannot represent) the result is \<open>None\<close>, and so it is when the dictionary has
  neither key.
\<close>

theorem time_extraction_total:
  "(\<exists>v. extract_timestamp pf time_data = Inr v)
   \<and> (\<exists>v. parse_timestamp_to_ms pf time_data = Inr v)
   \<and> (extract_timestamp_try pf time_data = Inl e \<longrightarrow> extract_timestamp pf time_data = Inr None)
   \<and> (parse_timestamp_to_ms_try pf time_data = Inl e \<longrightarrow> parse_timestamp_to_ms pf time_data = Inr None)
   \<and> (time_data ''timestamp'' = None \<and> time_data ''date'' = None \<longrightarrow>
         extract_timestamp pf time_data = Inr None \<and> parse_timestamp_to_ms pf time_data = Inr None)"
  using extract_timestamp_Inr parse_timestamp_to_ms_Inr failing_try neither_key
  by (simp add: same_try)

theorem time_extraction_total_witness:
  "extract_timestamp_try demo_platform [''timestamp'' \<mapsto> JStr ''soon''] = Inl ValueError
   \<and> extract_timestamp demo_platform [''timestamp'' \<mapsto> JStr ''soon''] = Inr None
   \<and> parse_timestamp_to_ms_try demo_platform [''date'' \<mapsto> JStr ''07/11/2024''] = Inl ValueError
   \<and> parse_timestamp_to_ms demo_platform [''date'' \<mapsto> JStr ''07/11/2024''] = Inr None
   \<and> parse_timestamp_to_ms_try demo_platform [''date'' \<mapsto> JNull] = Inl TypeError
   \<and> parse_timestamp_to_ms demo_platform [''date'' \<mapsto> JNull] = Inr None
   \<and> extract_timestamp demo_platform [''timezone'' \<mapsto> JStr ''UTC''] = Inr None"
proof -
  have a: "extract_timestamp_try demo_platform [''timestamp'' \<mapsto> JStr ''soon''] = Inl ValueError"
    by (simp add: extract_timestamp_try_def py_int_str_def int_strip_def int_isspace_def is_digit_def)
  have "strptime_ymd (JStr ''07/11/2024'') = Inl ValueError" by code_simp
  then have b: "parse_timestamp_to_ms_try demo_platform [''date'' \<mapsto> JStr ''07/11/2024''] = Inl ValueError"
    by (simp add: same_try extract_timestamp_try_def date_to_ms_def)
  have c: "parse_timestamp_to_ms_try demo_platform [''date'' \<mapsto> JNull] = Inl TypeError"
    by (simp add: same_try extract_timestamp_try_def date_to_ms_def strptime_ymd_def)
  from a b c
    time_extraction_total[of demo_platform "[''timestamp'' \<mapsto> JStr ''soon'']" ValueError]
    time_extraction_total[of demo_platform "[''date'' \<mapsto> JStr ''07/11/2024'']" ValueError]
    time_extraction_total[of demo_platform "[''date'' \<mapsto> JNull]" TypeError]
    time_extraction_total[of demo_platform "[''timezone'' \<mapsto> JStr ''UTC'']" ValueError]
  show ?thesis by simp
qed

section \<open>Claims about ingestion\<close>

text \<open>
  Claim C4 (exclusion).  The ingestion half of a cycle fetches, filters and writes the
  calendar files, and then loads every file into the store.  In a directory that holds
  only what the fetcher wrote (no file at the start is such a directory), the cycle
  leaves again such a directory, and every row of the store after the cycle has the
  \<open>event_id\<close> and the title of a row stored before the cycle, or of an event of a
  file that is not cancelled and whose title is not blank: a cancelled event and an
  event with an empty or blank title produce no row.  The fetcher keeps neither in what
  it writes, whatever the response; the loader skips a cancelled event of a file once
  more.  Hence, after any number of cycles that start with no file and no row, every
  row of the store has a title that is not blank.
\<close>

theorem ingestion_exclusion:
  assumes "fetched_only dir"
  shows "fetched_only (fst (ingest_cycle pf clock person_of filter_start calendars (dir, d)))
   \<and> (\<forall>r \<in> set (calendar_records (snd (ingest_cycle pf clock person_of filter_start calendars (dir, d)))).
         (\<exists>r0 \<in> set (calendar_records d). event_id r0 = event_id r \<and> summary r0 = summary r)
         \<or> (\<exists>e \<in> set (file_events (fst (ingest_cycle pf clock person_of filter_start calendars (dir, d)))).
               ev_status e \<noteq> Some ''cancelled'' \<and> py_strip (get_str (ev_summary e) '''') \<noteq> []
               \<and> ev_event_id e = Some (event_id r)
               \<and> summary r = Some (get_str (ev_summary e) '''')))
   \<and> (\<forall>items. get_calendar_events filter_start (Some raw) = Some items \<longrightarrow>
         (\<forall>e \<in> set raw. ev_status e = Some ''cancelled'' \<or> py_strip (get_str (ev_summary e) '''') = []
            \<longrightarrow> e \<notin> set items))
   \<and> (ev_status event = Some ''cancelled'' \<longrightarrow>
         load_events pf clock p f (event # events) st = load_events pf clock p f events st)
   \<and> fetched_only []
   \<and> (\<forall>r \<in> set (calendar_records (snd (ingest_cycles pf person_of cycles ([], empty_db)))).
         \<exists>s. summary r = Some s \<and> py_strip s \<noteq> [])"
proof -
  have c1: "fetched_only (fst (ingest_cycle pf clock person_of filter_start calendars (dir, d)))"
    using assms by (simp add: ingest_cycle_dir fetched_only_fetch)
  have c2: "\<forall>r \<in> set (calendar_records (snd (ingest_cycle pf clock person_of filter_start calendars (dir, d)))).
         (\<exists>r0 \<in> set (calendar_records d). event_id r0 = event_id r \<and> summary r0 = summary r)
         \<or> (\<exists>e \<in> set (file_events (fst (ingest_cycle pf clock person_of filter_start calendars (dir, d)))).
               ev_status e \<noteq> Some ''cancelled'' \<and> py_strip (get_str (ev_summary e) '''') \<noteq> []
               \<and> ev_event_id e = Some (event_id r)
               \<and> summary r = Some (get_str (ev_summary e) ''''))"
    using ingest_cycle_rows[OF assms] unfolding admitted_def by blast
  have c3: "\<forall>items. get_calendar_events filter_start (Some raw) = Some items \<longrightarrow>
         (\<forall>e \<in> set raw. ev_status e = Some ''cancelled'' \<or> py_strip (get_str (ev_summary e) '''') = []
            \<longrightarrow> e \<notin> set items)"
    using get_calendar_events_drops by blast
  have c4: "ev_status event = Some ''cancelled'' \<longrightarrow>
         load_events pf clock p f (event # events) st = load_events pf clock p f events st"
    by (cases st) auto
  have c5: "fetched_only []" by (simp add: fetched_only_def)
  have t0: "titled empty_db" by (simp add: titled_def empty_db_def)
  have "titled (snd (ingest_cycles pf person_of cycles ([], empty_db)))"
    using ingest_cycles_invariant[of "([], empty_db)" pf person_of cycles] c5 t0 by simp
  then have c6: "\<forall>r \<in> set (calendar_records (snd (ingest_cycles pf person_of cycles ([], empty_db)))).
         \<exists>s. summary r = Some s \<and> py_strip s \<noteq> []"
    by (auto simp: titled_def list_all_iff split: option.splits)
  show ?thesis
    by (intro conjI) (rule c1, rule c2, rule c3, rule c4, rule c5, rule c6)
qed

theorem ingestion_exclusion_witness:
  "fetched_only (fst (ingest_cycle demo_platform demo_clock demo_person_of 0
       (Some [(''Bob.txt'', Some [cancelled_event, blank_event])])
       ([(''Ann.txt'', Some [demo_event])], empty_db)))
   \<and> fst (ingest_cycle demo_platform demo_clock demo_person_of 0
       (Some [(''Bob.txt'', Some [cancelled_event, blank_event])])
       ([(''Ann.txt'', Some [demo_event])], empty_db))
      = [(''Ann.txt'', Some [demo_event]), (''Bob.txt'', Some [])]
   \<and> calendar_records (snd (ingest_cycle demo_platform demo_clock demo_person_of 0
       (Some [(''Bob.txt'', Some [cancelled_event, blank_event])])
       ([(''Ann.txt'', Some [demo_event])], empty_db)))
      = [\<lparr>event_id = ''e1'', person_name = ''Ann'', summary = Some ''Standup'',
          start_time = Some 1700000000000, end_time = None, calendar_file = Some ''Ann.txt'',
          record_hash = Some ''Standup'', upload_status = Pending, upload_time = None,
          upload_result = None, created_time = 100, updated_time = 100\<rparr>]"
proof -
  let ?cals = "Some [(''Bob.txt'', Some [cancelled_event, blank_event])]"
  let ?dir = "[(''Ann.txt'', Some [demo_event])]"
  have s0: "py_strip ''Standup'' \<noteq> []" by (simp add: py_strip_def py_isspace_def)
  have b0: "py_strip ''   '' = []" by (simp add: py_strip_def py_isspace_def)
  have h1: "ev_event_id demo_event = Some ''e1''" "ev_status demo_event \<noteq> Some ''cancelled''"
    "get_str (ev_summary demo_event) [] = ''Standup''"
    by (simp_all add: demo_event_def get_str_def)
  have e: "fetched_only ?dir"
    by (simp add: fetched_only_def admitted_def h1 s0)
  note main = ingestion_exclusion[OF e, of demo_platform demo_clock demo_person_of 0 ?cals empty_db]
  have a: "fetched_only (fst (ingest_cycle demo_platform demo_clock demo_person_of 0 ?cals (?dir, empty_db)))"
    using main by (rule conjunct1)
  have fe: "filter_events 0 [cancelled_event, blank_event] = Inr []"
    by (simp add: cancelled_event_def blank_event_def demo_event_def get_str_def b0)
  have g: "get_calendar_events 0 (Some [cancelled_event, blank_event]) = Some []"
    by (simp only: get_calendar_events_def fe option.case sum.case)
  have fetch: "fetch_calendar_data 0 ?cals ?dir = (True, [(''Ann.txt'', Some [demo_event]), (''Bob.txt'', Some [])])"
    by (simp add: fetch_calendar_data_def g write_file_def)
  have s: "extract_timestamp demo_platform (get_dict (ev_start_time demo_event)) = Inr (Some 1700000000000)"
    using demo_ts by (simp add: demo_event_def get_dict_def)
  have t: "extract_timestamp demo_platform (get_dict (ev_end_time demo_event)) = Inr None"
    using demo_no_time by (simp add: demo_event_def get_dict_def)
  have m: "md5_json demo_platform k = kf_summary k" for k
    by (simp add: demo_platform_def utc_platform_def)
  have up: "add_or_update_record demo_platform 100 empty_db demo_event ''Ann'' ''Ann.txt''
     = (True, \<lparr>calendar_records =
          [\<lparr>event_id = ''e1'', person_name = ''Ann'', summary = Some ''Standup'',
            start_time = Some 1700000000000, end_time = None, calendar_file = Some ''Ann.txt'',
            record_hash = Some ''Standup'', upload_status = Pending, upload_time = None,
            upload_result = None, created_time = 100, updated_time = 100\<rparr>],
          upload_logs = []\<rparr>)"
    by (simp add: add_or_update_record_def h1 s t Let_def select_by_event_id_def empty_db_def
        generate_record_hash_def m sqlite_int_ok_def)
  have b: "fst (ingest_cycle demo_platform demo_clock demo_person_of 0 ?cals (?dir, empty_db))
      = [(''Ann.txt'', Some [demo_event]), (''Bob.txt'', Some [])]"
    by (simp add: ingest_cycle_def fetch)
  have c: "calendar_records (snd (ingest_cycle demo_platform demo_clock demo_person_of 0 ?cals (?dir, empty_db)))
      = [\<lparr>event_id = ''e1'', person_name = ''Ann'', summary = Some ''Standup'',
          start_time = Some 1700000000000, end_time = None, calendar_file = Some ''Ann.txt'',
          record_hash = Some ''Standup'', upload_status = Pending, upload_time = None,
          upload_result = None, created_time = 100, updated_time = 100\<rparr>]"
    by (simp add: ingest_cycle_def fetch demo_person_of_def demo_clock_def h1 up)
  show ?thesis
    by (intro conjI) (rule a, rule b, rule c)
qed


end
